theory Spec2Isabelle
  imports Main "HOL-Library.Word" "HOL-Library.Multiset"
begin

section \<open>The Kafka messaging client of kafka/sarama\_client.go\<close>

text \<open>
  The client multiplexes subscriber channels over broker-level consumers. Its methods are
  embedded as functions from a world to an outcome: the world is the \<open>SaramaClient\<close>
  struct together with the part of the Go heap the methods touch (the \<open>consumerChannels\<close>
  objects the registry points to, the closed channels, the log of the calls made to the
  sarama libraries and the goroutines started with \<open>go\<close>). A goroutine is recorded with
  the number of library calls made before its \<open>go\<close> statement, which places every
  \<open>go\<close> statement among the library calls in program order.

  Channels, library handles and \<open>consumerChannels\<close> objects are identities (natural
  numbers handed out by the counter \<open>fresh\<close>); \<open>nil\<close> handles and the nil map
  are \<open>None\<close>. The registry lock is not modelled: every function below is one critical
  section or a sequential composition of them.
\<close>

subsection \<open>Values\<close>

type_synonym chan = nat
type_synonym handle = nat
type_synonym ptr = nat
type_synonym bytes = "8 word list"

text \<open>
  A Go \<open>error\<close> is either a sarama \<open>KError\<close> code or any other error value, which
  is known by its text only (\<open>errors.New\<close>). \<open>err == sarama.ErrTopicAlreadyExists\<close>
  is equality with the \<open>KError\<close> of that code.
\<close>

datatype error = KError int | ErrorNew string

definition ErrUnknownTopicOrPartition :: error where
  "ErrUnknownTopicOrPartition = KError 3"

definition ErrTopicAlreadyExists :: error where
  "ErrTopicAlreadyExists = KError 36"

definition OffsetNewest :: "64 word" where
  "OffsetNewest = - 1"

record Topic =
  Name :: string

text \<open>
  A protobuf message is an opaque value; \<open>ca.InterContainerMessage\<close> is one of them.
  The \<open>interface{}\<close> argument of \<open>Send\<close> either implements \<open>proto.Message\<close> or is
  some other value, kept as its \<open>%s\<close> rendering.
\<close>

datatype proto_message = ProtoMsg "nat list"

type_synonym InterContainerMessage = proto_message

datatype go_value = ProtoValue proto_message | OtherValue string

record ProducerMessage =
  msg_Topic :: string
  msg_Key :: string
  msg_Value :: bytes

record ConsumerMessage =
  cm_Offset :: "64 word"
  cm_Value :: bytes

text \<open>
  An element of \<open>consumers []interface{}\<close>: a \<open>sarama.PartitionConsumer\<close>, a
  \<open>*scc.Consumer\<close>, or a value of any other type.
\<close>

datatype consumer_if = PartitionConsumer_if handle | GroupConsumer_if handle | Other_if nat

record consumerChannels =
  consumers :: "consumer_if list"
  channels :: "chan list"

subsection \<open>The libraries and the broker behind them\<close>

text \<open>
  Every call into sarama, sarama-cluster and the producer's input is appended to the log
  \<open>calls\<close>. The library configurations built from the tunables are not part of a call.
\<close>

datatype call =
    NewClusterAdmin string int
  | NewAsyncProducer string int
  | NewConsumer string int
  | NewGroupConsumer string int string "string list"
  | Admin_CreateTopic handle string "32 word" "16 word" bool
  | Admin_DeleteTopic handle string
  | Admin_Close handle
  | Producer_Close handle
  | Producer_Input handle ProducerMessage
  | Consumer_Close handle
  | Consumer_Partitions handle string
  | Consumer_ConsumePartition handle string "32 word" "64 word"
  | PartitionConsumer_Close handle
  | GroupConsumer_Close handle
  | GroupConsumer_MarkOffset handle ConsumerMessage string

text \<open>
  What lies outside this file is a parameter: the answer of the libraries to a call, given
  the calls made so far (\<open>fails\<close>, and \<open>partitionList\<close> for the partitions of a topic),
  protobuf encoding and decoding, the text of a \<open>KError\<close>, and the constants of package
  kafka that this file uses and another file declares.
\<close>

record env =
  fails :: "call list \<Rightarrow> call \<Rightarrow> error option"
  partitionList :: "call list \<Rightarrow> string \<Rightarrow> 32 word list"
  Marshal :: "proto_message \<Rightarrow> error + bytes"
  Unmarshal :: "bytes \<Rightarrow> error + InterContainerMessage"
  KError_text :: "int \<Rightarrow> string"
  PartitionConsumer :: int
  GroupCustomer :: int
  DefaultKafkaHost :: string
  DefaultKafkaPort :: int
  DefaultConsumerType :: int
  DefaultNumberPartitions :: int
  DefaultNumberReplicas :: int
  DefaultAutoCreateTopic :: bool
  DefaultGroupName :: string
  DefaultMaxRetries :: int

fun Error :: "env \<Rightarrow> error \<Rightarrow> string" where
  "Error e (KError k) = KError_text e k"
| "Error e (ErrorNew s) = s"

subsection \<open>The client and the heap\<close>

text \<open>
  The fields of \<open>SaramaClient\<close> that the methods read or write. The producer and consumer
  tunables only fill library configurations and are left out, with their options.
  \<open>doneCh\<close> is the buffer of a channel of capacity 1.
\<close>

record SaramaClient =
  cAdmin :: "handle option"
  KafkaHost :: string
  KafkaPort :: int
  producer :: "handle option"
  consumer :: "handle option"
  groupConsumer :: "handle option"
  consumerType :: int
  groupName :: string
  numPartitions :: int
  numReplicas :: int
  autoCreateTopic :: bool
  doneCh :: "int list option"
  topicToConsumerChannelMap :: "(string \<rightharpoonup> ptr) option"

datatype task =
    Go_startConsumers Topic
  | Go_consumeFromAPartition Topic handle ptr
  | Go_consumeGroupMessages Topic handle ptr
  | Go_dispatchToConsumers ptr InterContainerMessage
  | Go_send chan InterContainerMessage

record world = SaramaClient +
  entries :: "ptr \<Rightarrow> consumerChannels"
  closed_chans :: "chan list"
  fresh :: nat
  calls :: "call list"
  goroutines :: "(task \<times> nat) list"

datatype panic =
    CloseOfClosedChannel chan
  | NilPointerDereference
  | AssignmentToNilMap
  | PanicError error

text \<open>
  A call returns, panics, or blocks (it cannot proceed from this world: a send on a full or
  nil channel with no receiver, a receive on an empty one).
\<close>

datatype 'a outcome = Returns 'a | Panics panic | Blocks

fun and_then :: "'a outcome \<Rightarrow> ('a \<Rightarrow> 'b outcome) \<Rightarrow> 'b outcome" where
  "and_then (Returns x) f = f x"
| "and_then (Panics p) f = Panics p"
| "and_then Blocks f = Blocks"

definition invoke :: "env \<Rightarrow> call \<Rightarrow> world \<Rightarrow> error option \<times> world" where
  "invoke e c w = (fails e (calls w) c, w\<lparr>calls := calls w @ [c]\<rparr>)"

definition spawn :: "task \<Rightarrow> world \<Rightarrow> world" where
  "spawn t w = w\<lparr>goroutines := goroutines w @ [(t, length (calls w))]\<rparr>"

definition close_chan :: "chan \<Rightarrow> world \<Rightarrow> world outcome" where
  "close_chan ch w =
     (if ch \<in> set (closed_chans w) then Panics (CloseOfClosedChannel ch)
      else Returns (w\<lparr>closed_chans := closed_chans w @ [ch]\<rparr>))"

definition map_get :: "(string \<rightharpoonup> ptr) option \<Rightarrow> string \<Rightarrow> ptr option" where
  "map_get m k = (case m of None \<Rightarrow> None | Some f \<Rightarrow> f k)"

definition map_delete :: "(string \<rightharpoonup> ptr) option \<Rightarrow> string \<Rightarrow> (string \<rightharpoonup> ptr) option" where
  "map_delete m k = (case m of None \<Rightarrow> None | Some f \<Rightarrow> Some (f(k := None)))"

subsection \<open>Construction and options\<close>

definition Host :: "string \<Rightarrow> world \<Rightarrow> world" where
  "Host host args = args\<lparr>KafkaHost := host\<rparr>"

definition Port :: "int \<Rightarrow> world \<Rightarrow> world" where
  "Port port args = args\<lparr>KafkaPort := port\<rparr>"

definition ConsumerType :: "int \<Rightarrow> world \<Rightarrow> world" where
  "ConsumerType c args = args\<lparr>consumerType := c\<rparr>"

definition NumPartitions :: "int \<Rightarrow> world \<Rightarrow> world" where
  "NumPartitions number args = args\<lparr>numPartitions := number\<rparr>"

definition NumReplicas :: "int \<Rightarrow> world \<Rightarrow> world" where
  "NumReplicas number args = args\<lparr>numReplicas := number\<rparr>"

definition AutoCreateTopic :: "bool \<Rightarrow> world \<Rightarrow> world" where
  "AutoCreateTopic opt args = args\<lparr>autoCreateTopic := opt\<rparr>"

text \<open>
  \<open>NewSaramaClient\<close> in an empty heap: the zero value of every field the constructor does
  not set (nil handles, nil \<open>doneCh\<close>, nil map, empty \<open>groupName\<close>), then the options in
  order.
\<close>

definition NewSaramaClient :: "env \<Rightarrow> (world \<Rightarrow> world) list \<Rightarrow> world" where
  "NewSaramaClient e opts =
     fold (\<lambda>option client. option client) opts
       \<lparr>cAdmin = None, KafkaHost = DefaultKafkaHost e, KafkaPort = DefaultKafkaPort e,
        producer = None, consumer = None, groupConsumer = None,
        consumerType = DefaultConsumerType e, groupName = [],
        numPartitions = DefaultNumberPartitions e, numReplicas = DefaultNumberReplicas e,
        autoCreateTopic = DefaultAutoCreateTopic e, doneCh = None,
        topicToConsumerChannelMap = None,
        entries = (\<lambda>p. \<lparr>consumers = [], channels = []\<rparr>), closed_chans = [], fresh = 0,
        calls = [], goroutines = []\<rparr>"

subsection \<open>Start\<close>

definition createClusterAdmin :: "env \<Rightarrow> world \<Rightarrow> error option \<times> world" where
  "createClusterAdmin e w =
     (case invoke e (NewClusterAdmin (KafkaHost w) (KafkaPort w)) w of
        (Some err, w1) \<Rightarrow> (Some err, w1)
      | (None, w1) \<Rightarrow> (None, w1\<lparr>cAdmin := Some (fresh w1), fresh := Suc (fresh w1)\<rparr>))"

definition createPublisher :: "env \<Rightarrow> world \<Rightarrow> error option \<times> world" where
  "createPublisher e w =
     (case invoke e (NewAsyncProducer (KafkaHost w) (KafkaPort w)) w of
        (Some err, w1) \<Rightarrow> (Some err, w1)
      | (None, w1) \<Rightarrow> (None, w1\<lparr>producer := Some (fresh w1), fresh := Suc (fresh w1)\<rparr>))"

definition createConsumer :: "env \<Rightarrow> world \<Rightarrow> error option \<times> world" where
  "createConsumer e w =
     (case invoke e (NewConsumer (KafkaHost w) (KafkaPort w)) w of
        (Some err, w1) \<Rightarrow> (Some err, w1)
      | (None, w1) \<Rightarrow> (None, w1\<lparr>consumer := Some (fresh w1), fresh := Suc (fresh w1)\<rparr>))"

definition Start :: "env \<Rightarrow> world \<Rightarrow> error option \<times> world" where
  "Start e w =
     (case createClusterAdmin e (w\<lparr>doneCh := Some []\<rparr>) of
        (Some err, w1) \<Rightarrow> (Some err, w1)
      | (None, w1) \<Rightarrow>
          (case createPublisher e w1 of
             (Some err, w2) \<Rightarrow> (Some err, w2)
           | (None, w2) \<Rightarrow>
               (case createConsumer e w2 of
                  (Some err, w3) \<Rightarrow> (Some err, w3)
                | (None, w3) \<Rightarrow> (None, w3\<lparr>topicToConsumerChannelMap := Some Map.empty\<rparr>))))"

subsection \<open>The registry\<close>

definition addTopicToConsumerChannelMap :: "string \<Rightarrow> ptr \<Rightarrow> world \<Rightarrow> world outcome" where
  "addTopicToConsumerChannelMap id' arg w =
     (case map_get (topicToConsumerChannelMap w) id' of
        Some p \<Rightarrow> Returns w
      | None \<Rightarrow>
          (case topicToConsumerChannelMap w of
             None \<Rightarrow> Panics AssignmentToNilMap
           | Some f \<Rightarrow> Returns (w\<lparr>topicToConsumerChannelMap := Some (f(id' \<mapsto> arg))\<rparr>)))"

definition deleteFromTopicToConsumerChannelMap :: "string \<Rightarrow> world \<Rightarrow> world" where
  "deleteFromTopicToConsumerChannelMap id' w =
     (case map_get (topicToConsumerChannelMap w) id' of
        Some p \<Rightarrow> w\<lparr>topicToConsumerChannelMap := map_delete (topicToConsumerChannelMap w) id'\<rparr>
      | None \<Rightarrow> w)"

definition getConsumerChannel :: "Topic \<Rightarrow> world \<Rightarrow> ptr option" where
  "getConsumerChannel topic w = map_get (topicToConsumerChannelMap w) (Name topic)"

definition addChannelToConsumerChannelMap :: "Topic \<Rightarrow> chan \<Rightarrow> world \<Rightarrow> world" where
  "addChannelToConsumerChannelMap topic ch w =
     (case map_get (topicToConsumerChannelMap w) (Name topic) of
        Some consumerCh \<Rightarrow>
          w\<lparr>entries := (entries w)(consumerCh :=
              (entries w consumerCh)\<lparr>channels := channels (entries w consumerCh) @ [ch]\<rparr>)\<rparr>
      | None \<Rightarrow> w)"

text \<open>
  \<open>closeConsumers\<close>: the loop keeps one \<open>err\<close>; a failing \<open>Close\<close> overwrites it, with
  nil when the text of the error is that of \<open>ErrUnknownTopicOrPartition\<close>.
\<close>

fun closeConsumers_loop ::
  "env \<Rightarrow> consumer_if list \<Rightarrow> error option \<Rightarrow> world \<Rightarrow> error option \<times> world" where
  "closeConsumers_loop e [] err w = (err, w)"
| "closeConsumers_loop e (PartitionConsumer_if partionConsumer # rest) err w =
     (case invoke e (PartitionConsumer_Close partionConsumer) w of
        (Some errTemp, w1) \<Rightarrow>
          (if Error e errTemp = Error e ErrUnknownTopicOrPartition
           then closeConsumers_loop e rest None w1
           else closeConsumers_loop e rest (Some errTemp) w1)
      | (None, w1) \<Rightarrow> closeConsumers_loop e rest err w1)"
| "closeConsumers_loop e (GroupConsumer_if groupConsumer' # rest) err w =
     (case invoke e (GroupConsumer_Close groupConsumer') w of
        (Some errTemp, w1) \<Rightarrow>
          (if Error e errTemp = Error e ErrUnknownTopicOrPartition
           then closeConsumers_loop e rest None w1
           else closeConsumers_loop e rest (Some errTemp) w1)
      | (None, w1) \<Rightarrow> closeConsumers_loop e rest err w1)"
| "closeConsumers_loop e (Other_if v # rest) err w = closeConsumers_loop e rest err w"

definition closeConsumers :: "env \<Rightarrow> consumer_if list \<Rightarrow> world \<Rightarrow> error option \<times> world" where
  "closeConsumers e cs w = closeConsumers_loop e cs None w"

text \<open>
  \<open>removeChannel\<close> works on the backing array of the slice it is given: it swaps the
  match with the last element in place, closes the match and returns the slice without its
  last element. The result is the array after the call, the returned slice, and the world.
\<close>

function removeChannel_from ::
  "nat \<Rightarrow> chan list \<Rightarrow> chan \<Rightarrow> world \<Rightarrow> (chan list \<times> chan list \<times> world) outcome" where
  "removeChannel_from i chs ch w =
     (if i < length chs then
        (if chs ! i = ch then
           (let arr = chs[length chs - 1 := chs ! i, i := chs ! (length chs - 1)] in
            and_then (close_chan (chs ! i) w)
              (\<lambda>w1. Returns (arr, take (length chs - 1) arr, w1)))
         else removeChannel_from (Suc i) chs ch w)
      else Returns (chs, chs, w))"
  by pat_completeness auto
termination
  by (relation "measure (\<lambda>(i, chs, ch, w). length chs - i)") auto

declare removeChannel_from.simps [simp del]

definition removeChannel ::
  "chan list \<Rightarrow> chan \<Rightarrow> world \<Rightarrow> (chan list \<times> chan list \<times> world) outcome" where
  "removeChannel chs ch w = removeChannel_from 0 chs ch w"

definition set_channels :: "ptr \<Rightarrow> chan list \<Rightarrow> world \<Rightarrow> world" where
  "set_channels p chs w = w\<lparr>entries := (entries w)(p := (entries w p)\<lparr>channels := chs\<rparr>)\<rparr>"

definition removeChannelFromConsumerChannelMap ::
  "env \<Rightarrow> Topic \<Rightarrow> chan \<Rightarrow> world \<Rightarrow> (error option \<times> world) outcome" where
  "removeChannelFromConsumerChannelMap e topic ch w =
     (case map_get (topicToConsumerChannelMap w) (Name topic) of
        Some consumerCh \<Rightarrow>
          and_then (removeChannel (channels (entries w consumerCh)) ch w)
            (\<lambda>(arr, res, w1).
               let w2 = set_channels consumerCh res w1 in
               if length (channels (entries w2 consumerCh)) = 0 then
                 (case closeConsumers e (consumers (entries w2 consumerCh)) w2 of
                    (err, w3) \<Rightarrow>
                      Returns (err, w3\<lparr>topicToConsumerChannelMap :=
                                 map_delete (topicToConsumerChannelMap w3) (Name topic)\<rparr>))
               else Returns (None, w2))
      | None \<Rightarrow> Returns (Some (ErrorNew ''topic-does-not-exist''), w))"

text \<open>
  The loop \<open>for _, ch := range consumerCh.channels { removeChannel(consumerCh.channels, ch) }\<close>:
  the range fixes the number of iterations, reads element \<open>i\<close> of the shared array at
  iteration \<open>i\<close>, and the slice returned by \<open>removeChannel\<close> is dropped, so the array keeps
  its length and only the swaps and the closes remain. \<open>k\<close> counts the iterations left.
\<close>

fun removeChannels_range ::
  "nat \<Rightarrow> nat \<Rightarrow> chan list \<Rightarrow> world \<Rightarrow> (chan list \<times> world) outcome" where
  "removeChannels_range 0 i arr w = Returns (arr, w)"
| "removeChannels_range (Suc k) i arr w =
     and_then (removeChannel arr (arr ! i) w)
       (\<lambda>(arr1, res, w1). removeChannels_range k (Suc i) arr1 w1)"

definition clearTopicFromConsumerChannelMap ::
  "env \<Rightarrow> Topic \<Rightarrow> world \<Rightarrow> (error option \<times> world) outcome" where
  "clearTopicFromConsumerChannelMap e topic w =
     (case map_get (topicToConsumerChannelMap w) (Name topic) of
        Some consumerCh \<Rightarrow>
          and_then
            (removeChannels_range (length (channels (entries w consumerCh))) 0
               (channels (entries w consumerCh)) w)
            (\<lambda>(arr, w1).
               let w2 = set_channels consumerCh arr w1 in
               (case closeConsumers e (consumers (entries w2 consumerCh)) w2 of
                  (err, w3) \<Rightarrow>
                    Returns (err, w3\<lparr>topicToConsumerChannelMap :=
                               map_delete (topicToConsumerChannelMap w3) (Name topic)\<rparr>)))
      | None \<Rightarrow> Returns (None, w))"

text \<open>
  \<open>clearConsumerChannelMap\<close> ranges over the map, whose order Go leaves open: \<open>keys\<close> is
  the order in which this run visits the topics. A key with no entry is not visited.
\<close>

fun clearConsumerChannelMap_range ::
  "env \<Rightarrow> string list \<Rightarrow> error option \<Rightarrow> world \<Rightarrow> (error option \<times> world) outcome" where
  "clearConsumerChannelMap_range e [] err w = Returns (err, w)"
| "clearConsumerChannelMap_range e (topic # rest) err w =
     (case map_get (topicToConsumerChannelMap w) topic of
        None \<Rightarrow> clearConsumerChannelMap_range e rest err w
      | Some consumerCh \<Rightarrow>
          and_then
            (removeChannels_range (length (channels (entries w consumerCh))) 0
               (channels (entries w consumerCh)) w)
            (\<lambda>(arr, w1).
               let w2 = set_channels consumerCh arr w1 in
               (case closeConsumers e (consumers (entries w2 consumerCh)) w2 of
                  (errTemp, w3) \<Rightarrow>
                    clearConsumerChannelMap_range e rest
                      (if errTemp \<noteq> None then errTemp else err)
                      (w3\<lparr>topicToConsumerChannelMap :=
                            map_delete (topicToConsumerChannelMap w3) topic\<rparr>))))"

definition clearConsumerChannelMap ::
  "env \<Rightarrow> string list \<Rightarrow> world \<Rightarrow> (error option \<times> world) outcome" where
  "clearConsumerChannelMap e keys w = clearConsumerChannelMap_range e keys None w"

subsection \<open>Stop\<close>

text \<open>
  \<open>sc.doneCh <- 1\<close> proceeds when the buffer of capacity 1 has room; on a full buffer or
  a nil channel the send waits for a receiver. Each handle that is not nil is closed, and
  an error of \<open>Close\<close> is a panic. No field is changed but the map.
\<close>

definition Stop :: "env \<Rightarrow> string list \<Rightarrow> world \<Rightarrow> world outcome" where
  "Stop e keys w =
     (case doneCh w of
        None \<Rightarrow> Blocks
      | Some buf \<Rightarrow>
          if 1 \<le> length buf then Blocks
          else
            and_then
              (let w0 = w\<lparr>doneCh := Some (buf @ [1])\<rparr> in
               case producer w0 of
                 None \<Rightarrow> Returns w0
               | Some h \<Rightarrow>
                   (case invoke e (Producer_Close h) w0 of
                      (Some err, w1) \<Rightarrow> Panics (PanicError err)
                    | (None, w1) \<Rightarrow> Returns w1))
              (\<lambda>w1.
                 and_then
                   (case consumer w1 of
                      None \<Rightarrow> Returns w1
                    | Some h \<Rightarrow>
                        (case invoke e (Consumer_Close h) w1 of
                           (Some err, w2) \<Rightarrow> Panics (PanicError err)
                         | (None, w2) \<Rightarrow> Returns w2))
                   (\<lambda>w2.
                      and_then
                        (case groupConsumer w2 of
                           None \<Rightarrow> Returns w2
                         | Some h \<Rightarrow>
                             (case invoke e (GroupConsumer_Close h) w2 of
                                (Some err, w3) \<Rightarrow> Panics (PanicError err)
                              | (None, w3) \<Rightarrow> Returns w3))
                        (\<lambda>w3.
                           and_then
                             (case cAdmin w3 of
                                None \<Rightarrow> Returns w3
                              | Some h \<Rightarrow>
                                  (case invoke e (Admin_Close h) w3 of
                                     (Some err, w4) \<Rightarrow> Panics (PanicError err)
                                   | (None, w4) \<Rightarrow> Returns w4))
                             (\<lambda>w4.
                                and_then (clearConsumerChannelMap e keys w4)
                                  (\<lambda>(err, w5). Returns w5))))))"

subsection \<open>Topics on the broker\<close>

definition CreateTopic ::
  "env \<Rightarrow> Topic \<Rightarrow> int \<Rightarrow> int \<Rightarrow> world \<Rightarrow> (error option \<times> world) outcome" where
  "CreateTopic e topic numPartition repFactor w =
     (case cAdmin w of
        None \<Rightarrow> Panics NilPointerDereference
      | Some a \<Rightarrow>
          (case invoke e (Admin_CreateTopic a (Name topic) (word_of_int numPartition)
                            (word_of_int repFactor) False) w of
             (Some err, w1) \<Rightarrow>
               if err = ErrTopicAlreadyExists then Returns (None, w1)
               else Returns (Some err, w1)
           | (None, w1) \<Rightarrow> Returns (None, w1)))"

definition DeleteTopic :: "env \<Rightarrow> Topic \<Rightarrow> world \<Rightarrow> (error option \<times> world) outcome" where
  "DeleteTopic e topic w =
     (case cAdmin w of
        None \<Rightarrow> Panics NilPointerDereference
      | Some a \<Rightarrow>
          (case invoke e (Admin_DeleteTopic a (Name topic)) w of
             (Some err, w1) \<Rightarrow>
               if err = ErrUnknownTopicOrPartition then Returns (None, w1)
               else Returns (Some err, w1)
           | (None, w1) \<Rightarrow>
               and_then (clearTopicFromConsumerChannelMap e topic w1)
                 (\<lambda>(err, w2). case err of Some x \<Rightarrow> Returns (Some x, w2)
                                | None \<Rightarrow> Returns (None, w2))))"

subsection \<open>Building the broker-level consumers\<close>

fun ConsumePartitions ::
  "env \<Rightarrow> handle \<Rightarrow> Topic \<Rightarrow> 64 word \<Rightarrow> 32 word list \<Rightarrow> handle list \<Rightarrow> world
     \<Rightarrow> (error + handle list) \<times> world" where
  "ConsumePartitions e c topic initialOffset [] pConsumers w = (Inr pConsumers, w)"
| "ConsumePartitions e c topic initialOffset (partition1 # rest) pConsumers w =
     (case invoke e (Consumer_ConsumePartition c (Name topic) partition1 initialOffset) w of
        (Some err, w1) \<Rightarrow> (Inl err, w1)
      | (None, w1) \<Rightarrow>
          ConsumePartitions e c topic initialOffset rest (pConsumers @ [fresh w1])
            (w1\<lparr>fresh := Suc (fresh w1)\<rparr>))"

definition createPartionConsumers ::
  "env \<Rightarrow> Topic \<Rightarrow> 64 word \<Rightarrow> world \<Rightarrow> ((error + handle list) \<times> world) outcome" where
  "createPartionConsumers e topic initialOffset w =
     (case consumer w of
        None \<Rightarrow> Panics NilPointerDereference
      | Some c \<Rightarrow>
          (case invoke e (Consumer_Partitions c (Name topic)) w of
             (Some err, w1) \<Rightarrow> Returns (Inl err, w1)
           | (None, w1) \<Rightarrow>
               Returns (ConsumePartitions e c topic initialOffset
                          (partitionList e (calls w) (Name topic)) [] w1)))"

definition createGroupConsumer ::
  "env \<Rightarrow> Topic \<Rightarrow> string option \<Rightarrow> int \<Rightarrow> world \<Rightarrow> (error + handle) \<times> world" where
  "createGroupConsumer e topic groupId retries w =
     (let groupId1 = (case groupId of None \<Rightarrow> DefaultGroupName e | Some g \<Rightarrow> g) in
      case invoke e (NewGroupConsumer (KafkaHost w) (KafkaPort w) groupId1 [Name topic]) w of
        (Some err, w1) \<Rightarrow> (Inl err, w1)
      | (None, w1) \<Rightarrow>
          (Inr (fresh w1), w1\<lparr>groupConsumer := Some (fresh w1), fresh := Suc (fresh w1)\<rparr>))"

text \<open>
  Both setups end alike: make the subscriber channel, allocate the \<open>consumerChannels\<close>
  object, add it to the map and start \<open>startConsumers\<close> as a goroutine.
\<close>

definition register_entry ::
  "Topic \<Rightarrow> consumer_if list \<Rightarrow> world \<Rightarrow> ((error + chan) \<times> world) outcome" where
  "register_entry topic consumersIf w =
     (let consumerListeningChannel = fresh w;
          cc = Suc (fresh w);
          w1 = w\<lparr>entries := (entries w)(cc :=
                   \<lparr>consumers = consumersIf, channels = [consumerListeningChannel]\<rparr>),
                 fresh := Suc (Suc (fresh w))\<rparr>
      in and_then (addTopicToConsumerChannelMap (Name topic) cc w1)
           (\<lambda>w2. Returns (Inr consumerListeningChannel, spawn (Go_startConsumers topic) w2)))"

definition setupPartitionConsumerChannel ::
  "env \<Rightarrow> Topic \<Rightarrow> 64 word \<Rightarrow> world \<Rightarrow> ((error + chan) \<times> world) outcome" where
  "setupPartitionConsumerChannel e topic initialOffset w =
     and_then (createPartionConsumers e topic initialOffset w)
       (\<lambda>(r, w1). case r of
            Inl err \<Rightarrow> Returns (Inl err, w1)
          | Inr pConsumers \<Rightarrow> register_entry topic (map PartitionConsumer_if pConsumers) w1)"

definition setupGroupConsumerChannel ::
  "env \<Rightarrow> Topic \<Rightarrow> string \<Rightarrow> world \<Rightarrow> ((error + chan) \<times> world) outcome" where
  "setupGroupConsumerChannel e topic groupId w =
     (case createGroupConsumer e topic (Some groupId) (DefaultMaxRetries e) w of
        (Inl err, w1) \<Rightarrow> Returns (Inl err, w1)
      | (Inr pConsumer, w1) \<Rightarrow> register_entry topic [GroupConsumer_if pConsumer] w1)"

subsection \<open>Subscribe, UnSubscribe, Send\<close>

definition Subscribe :: "env \<Rightarrow> Topic \<Rightarrow> world \<Rightarrow> ((error + chan) \<times> world) outcome" where
  "Subscribe e topic w =
     (case getConsumerChannel topic w of
        Some consumerCh \<Rightarrow>
          (let ch = fresh w in
           Returns (Inr ch, addChannelToConsumerChannelMap topic ch (w\<lparr>fresh := Suc (fresh w)\<rparr>)))
      | None \<Rightarrow>
          if consumerType w = PartitionConsumer e then
            and_then
              (if autoCreateTopic w
               then CreateTopic e topic (numPartitions w) (numReplicas w) w
               else Returns (None, w))
              (\<lambda>(err, w1). case err of
                   Some x \<Rightarrow> Returns (Inl x, w1)
                 | None \<Rightarrow> setupPartitionConsumerChannel e topic OffsetNewest w1)
          else if consumerType w = GroupCustomer e then
            setupGroupConsumerChannel e topic ''mytest'' w
          else Returns (Inl (ErrorNew ''unknown-consumer-type''), w))"

definition UnSubscribe ::
  "env \<Rightarrow> Topic \<Rightarrow> chan \<Rightarrow> world \<Rightarrow> (error option \<times> world) outcome" where
  "UnSubscribe e topic ch w = removeChannelFromConsumerChannelMap e topic ch w"

definition Send ::
  "env \<Rightarrow> go_value \<Rightarrow> Topic \<Rightarrow> string list \<Rightarrow> world \<Rightarrow> (error option \<times> world) outcome" where
  "Send e msg topic keys w =
     (case msg of
        OtherValue s \<Rightarrow> Returns (Some (ErrorNew (''not-a-proto-msg-'' @ s)), w)
      | ProtoValue protoMsg \<Rightarrow>
          (case Marshal e protoMsg of
             Inl err \<Rightarrow> Returns (Some err, w)
           | Inr marshalled \<Rightarrow>
               (let key = (if 0 < length keys then keys ! 0 else []);
                    kafkaMsg = \<lparr>msg_Topic = Name topic, msg_Key = key, msg_Value = marshalled\<rparr>
                in case producer w of
                     None \<Rightarrow> Panics NilPointerDereference
                   | Some p \<Rightarrow> Returns (None, w\<lparr>calls := calls w @ [Producer_Input p kafkaMsg]\<rparr>))))"

subsection \<open>Dispatch and the consumption loops\<close>

definition dispatchToConsumers :: "ptr \<Rightarrow> InterContainerMessage \<Rightarrow> world \<Rightarrow> world" where
  "dispatchToConsumers consumerCh protoMessage w =
     fold (\<lambda>c. spawn (Go_send c protoMessage)) (channels (entries w consumerCh)) w"

text \<open>
  One pass through the \<open>select\<close> of a consumption loop, for the case the runtime picked.
  The case on \<open>doneCh\<close> receives from its buffer, and cannot be picked while the buffer
  is empty. The \<open>select\<close> of the partition loop has no case on notifications, so that
  case cannot be picked there.
\<close>

datatype select_case =
    Errors_case "error option"
  | Messages_case "ConsumerMessage option"
  | Notifications_case
  | Done_case

datatype loop_ctl = Continue | Break


fun consumeGroupMessages_select ::
  "env \<Rightarrow> Topic \<Rightarrow> handle \<Rightarrow> ptr \<Rightarrow> select_case \<Rightarrow> world \<Rightarrow> (loop_ctl \<times> world) outcome" where
  "consumeGroupMessages_select e topic c consumerChnls (Errors_case err) w =
     Returns (Continue, w)"
| "consumeGroupMessages_select e topic c consumerChnls (Messages_case None) w =
     Returns (Break, w)"
| "consumeGroupMessages_select e topic c consumerChnls (Messages_case (Some msg)) w =
     (case Unmarshal e (cm_Value msg) of
        Inl err \<Rightarrow> Returns (Continue, w)
      | Inr icm \<Rightarrow>
          Returns (Continue,
            (let w1 = spawn (Go_dispatchToConsumers consumerChnls icm) w
             in w1\<lparr>calls := calls w1 @ [GroupConsumer_MarkOffset c msg []]\<rparr>)))"
| "consumeGroupMessages_select e topic c consumerChnls Notifications_case w =
     Returns (Continue, w)"
| "consumeGroupMessages_select e topic c consumerChnls Done_case w =
     (case doneCh w of
        None \<Rightarrow> Blocks
      | Some [] \<Rightarrow> Blocks
      | Some (x # buf) \<Rightarrow> Returns (Break, w\<lparr>doneCh := Some buf\<rparr>))"

text \<open>
  The loop, over the cases the runtime picks one after the other: it ends at the first
  \<open>Break\<close>; \<open>Continue\<close> is the loop still running when the given cases are used up.
\<close>

fun consumeGroupMessages ::
  "env \<Rightarrow> Topic \<Rightarrow> handle \<Rightarrow> ptr \<Rightarrow> select_case list \<Rightarrow> world \<Rightarrow> (loop_ctl \<times> world) outcome" where
  "consumeGroupMessages e topic c consumerChnls [] w = Returns (Continue, w)"
| "consumeGroupMessages e topic c consumerChnls (ev # evs) w =
     and_then (consumeGroupMessages_select e topic c consumerChnls ev w)
       (\<lambda>(ctl, w1). case ctl of
            Break \<Rightarrow> Returns (Break, w1)
          | Continue \<Rightarrow> consumeGroupMessages e topic c consumerChnls evs w1)"




subsection \<open>Observations used in the statements\<close>

text \<open>
  The \<open>Close\<close> calls that closing a list of consumers makes, in order, and the errors that
  a list of calls made one after the other from a given log comes back with.
\<close>

fun close_calls :: "consumer_if list \<Rightarrow> call list" where
  "close_calls [] = []"
| "close_calls (PartitionConsumer_if h # rest) = PartitionConsumer_Close h # close_calls rest"
| "close_calls (GroupConsumer_if h # rest) = GroupConsumer_Close h # close_calls rest"
| "close_calls (Other_if v # rest) = close_calls rest"

fun close_failures :: "env \<Rightarrow> call list \<Rightarrow> call list \<Rightarrow> error list" where
  "close_failures e log [] = []"
| "close_failures e log (c # cs) =
     (case fails e log c of None \<Rightarrow> [] | Some x \<Rightarrow> [x]) @ close_failures e (log @ [c]) cs"

definition absorbed :: "env \<Rightarrow> error \<Rightarrow> bool" where
  "absorbed e x = (Error e x = Error e ErrUnknownTopicOrPartition)"

text \<open>\<open>Subscribe\<close> called \<open>n\<close> times in a row on one topic, with the results in order.\<close>

fun Subscribe_times ::
  "env \<Rightarrow> Topic \<Rightarrow> nat \<Rightarrow> world \<Rightarrow> ((error + chan) list \<times> world) outcome" where
  "Subscribe_times e topic 0 w = Returns ([], w)"
| "Subscribe_times e topic (Suc n) w =
     and_then (Subscribe e topic w)
       (\<lambda>(r, w1). and_then (Subscribe_times e topic n w1)
          (\<lambda>(rs, w2). Returns (r # rs, w2)))"

subsection \<open>An example broker and example runs\<close>

text \<open>
  A broker on which every call succeeds and every topic has the one partition 0, with the
  partition strategy as the default; variants of it on which one call fails; and the
  worlds reached from a new client by \<open>Start\<close> and by one and two calls of \<open>Subscribe\<close>.
\<close>

definition example_env :: env where
  "example_env =
     \<lparr>fails = (\<lambda>log c. None), partitionList = (\<lambda>log t. [0]),
      Marshal = (\<lambda>m. Inr []), Unmarshal = (\<lambda>b. Inr (ProtoMsg [])),
      KError_text = (\<lambda>k. if k = 3 then ''unknown topic or partition'' else ''kafka error''),
      PartitionConsumer = 0, GroupCustomer = 1,
      DefaultKafkaHost = ''127.0.0.1'', DefaultKafkaPort = 9092, DefaultConsumerType = 0,
      DefaultNumberPartitions = 3, DefaultNumberReplicas = 1, DefaultAutoCreateTopic = False,
      DefaultGroupName = ''voltha'', DefaultMaxRetries = 3\<rparr>"

definition events :: Topic where
  "events = \<lparr>Name = ''events''\<rparr>"

definition world_of :: "('a \<times> world) outcome \<Rightarrow> world \<Rightarrow> world" where
  "world_of r w = (case r of Returns (x, w1) \<Rightarrow> w1 | Panics p \<Rightarrow> w | Blocks \<Rightarrow> w)"

definition started :: world where
  "started = snd (Start example_env (NewSaramaClient example_env []))"

definition subscribed :: world where
  "subscribed = world_of (Subscribe example_env events started) started"

definition subscribed_twice :: world where
  "subscribed_twice = world_of (Subscribe example_env events subscribed) subscribed"

definition close_unknown_env :: env where
  "close_unknown_env =
     example_env\<lparr>fails := (\<lambda>log c. case c of
        PartitionConsumer_Close h \<Rightarrow> Some ErrUnknownTopicOrPartition | _ \<Rightarrow> None)\<rparr>"






text \<open>
  More example runs: a client with the group strategy and topic auto-creation switched on,
  started and subscribed; a client with the partition strategy and auto-creation; the
  subscribed client once its \<open>startConsumers\<close> goroutine has run; and brokers on which
  topic creation fails, or answers that the topic exists already or is unknown.
\<close>

definition group_started :: world where
  "group_started =
     snd (Start example_env (NewSaramaClient example_env [ConsumerType 1, AutoCreateTopic True]))"

definition group_subscribed :: world where
  "group_subscribed = world_of (Subscribe example_env events group_started) group_started"

definition auto_started :: world where
  "auto_started = snd (Start example_env (NewSaramaClient example_env [AutoCreateTopic True]))"


definition create_fails_env :: env where
  "create_fails_env =
     example_env\<lparr>fails := (\<lambda>log c. case c of
        Admin_CreateTopic a t n r v \<Rightarrow> Some (ErrorNew ''broker down'') | _ \<Rightarrow> None)\<rparr>"

definition topic_known_env :: env where
  "topic_known_env =
     example_env\<lparr>fails := (\<lambda>log c. case c of
        Admin_CreateTopic a t n r v \<Rightarrow> Some ErrTopicAlreadyExists
      | Admin_DeleteTopic a t \<Rightarrow> Some ErrUnknownTopicOrPartition
      | _ \<Rightarrow> None)\<rparr>"

definition garbled_env :: env where
  "garbled_env = example_env\<lparr>Unmarshal := (\<lambda>b. Inl (ErrorNew ''proto: bad wire type''))\<rparr>"

text \<open>
  Whether a goroutine running \<open>t\<close> was started with the library call \<open>c\<close> as the next
  library call: it was started when \<open>n\<close> calls had been made, and call number \<open>n\<close>
  (counted from 0) is \<open>c\<close>.
\<close>

definition started_just_before :: "task \<Rightarrow> call \<Rightarrow> world \<Rightarrow> bool" where
  "started_just_before t c w =
     list_ex (\<lambda>(t', n). t' = t \<and> n < length (calls w) \<and> calls w ! n = c) (goroutines w)"

text \<open>
  A decoder that rejects the empty payload only; a broker on which the topic has the two
  partitions 0 and 1, and the client subscribed there; two brokers on which the \<open>Close\<close> of
  the first partition consumer fails with a genuine error, and the \<open>Close\<close> of the others
  either answers unknown-topic-or-partition or succeeds.
\<close>

definition bad_then_good_env :: env where
  "bad_then_good_env =
     example_env\<lparr>Unmarshal := (\<lambda>b. if b = [] then Inl (ErrorNew ''proto: empty'')
                                   else Inr (ProtoMsg (map unat b)))\<rparr>"

definition two_partition_env :: env where
  "two_partition_env = example_env\<lparr>partitionList := (\<lambda>log t. [0, 1])\<rparr>"

definition subscribed_two_partitions :: world where
  "subscribed_two_partitions = world_of (Subscribe two_partition_env events started) started"

definition close_reset_env :: env where
  "close_reset_env =
     two_partition_env\<lparr>fails := (\<lambda>log c. case c of
        PartitionConsumer_Close h \<Rightarrow>
          if h = 3 then Some (ErrorNew ''broker down'') else Some ErrUnknownTopicOrPartition
      | _ \<Rightarrow> None)\<rparr>"

definition close_first_fails_env :: env where
  "close_first_fails_env =
     two_partition_env\<lparr>fails := (\<lambda>log c. case c of
        PartitionConsumer_Close h \<Rightarrow> if h = 3 then Some (ErrorNew ''broker down'') else None
      | _ \<Rightarrow> None)\<rparr>"

section \<open>Properties\<close>

subsection \<open>Evaluation of the example runs\<close>

lemmas eval_defs = example_env_def close_unknown_env_def events_def started_def
  subscribed_def subscribed_twice_def group_started_def group_subscribed_def auto_started_def
  create_fails_env_def topic_known_env_def ConsumerType_def AutoCreateTopic_def world_of_def NewSaramaClient_def Start_def
  createClusterAdmin_def createPublisher_def createConsumer_def invoke_def
  Subscribe_def getConsumerChannel_def map_get_def map_delete_def
  addChannelToConsumerChannelMap_def CreateTopic_def setupPartitionConsumerChannel_def
  createPartionConsumers_def register_entry_def addTopicToConsumerChannelMap_def spawn_def
  setupGroupConsumerChannel_def createGroupConsumer_def Let_def OffsetNewest_def

lemma started_eq:
  "started =
     \<lparr>cAdmin = Some 0, KafkaHost = ''127.0.0.1'', KafkaPort = 9092,
      producer = Some 1, consumer = Some 2, groupConsumer = None,
      consumerType = 0, groupName = [], numPartitions = 3, numReplicas = 1,
      autoCreateTopic = False, doneCh = Some [],
      topicToConsumerChannelMap = Some Map.empty,
      entries = (\<lambda>p. \<lparr>consumers = [], channels = []\<rparr>), closed_chans = [], fresh = 3,
      calls = [NewClusterAdmin ''127.0.0.1'' 9092, NewAsyncProducer ''127.0.0.1'' 9092,
               NewConsumer ''127.0.0.1'' 9092],
      goroutines = []\<rparr>"
  by (simp add: eval_defs)

lemma subscribed_eq:
  "subscribed =
     started\<lparr>topicToConsumerChannelMap := Some [''events'' \<mapsto> 5],
       entries := (\<lambda>p. \<lparr>consumers = [], channels = []\<rparr>)
                    (5 := \<lparr>consumers = [PartitionConsumer_if 3], channels = [4]\<rparr>),
       fresh := 6,
       calls := calls started @ [Consumer_Partitions 2 ''events'',
                  Consumer_ConsumePartition 2 ''events'' 0 (- 1)],
       goroutines := [(Go_startConsumers events, 5)]\<rparr>"
  unfolding started_eq subscribed_def
  by (simp add: eval_defs)

lemma subscribed_twice_eq:
  "subscribed_twice =
     subscribed\<lparr>entries := (\<lambda>p. \<lparr>consumers = [], channels = []\<rparr>)
                    (5 := \<lparr>consumers = [PartitionConsumer_if 3], channels = [4, 6]\<rparr>),
       fresh := 7\<rparr>"
  unfolding subscribed_eq started_eq subscribed_twice_def
  by (simp add: eval_defs)

subsection \<open>Removing one channel\<close>

lemma set_channels_same: "set_channels p (channels (entries w p)) w = w"
  by (simp add: set_channels_def)

lemma removeChannel_from_absent:
  "ch \<notin> set (drop i chs) \<Longrightarrow> removeChannel_from i chs ch w = Returns (chs, chs, w)"
proof (induction i chs ch w rule: removeChannel_from.induct)
  case (1 i chs ch w)
  show ?case
  proof (cases "i < length chs")
    case True
    then have d: "drop i chs = chs ! i # drop (Suc i) chs"
      by (simp add: Cons_nth_drop_Suc)
    with "1.prems" have ne: "chs ! i \<noteq> ch" and rest: "ch \<notin> set (drop (Suc i) chs)"
      by auto
    from "1.IH"[OF True ne rest] True ne show ?thesis
      by (subst removeChannel_from.simps) simp
  next
    case False
    then show ?thesis by (subst removeChannel_from.simps) simp
  qed
qed

lemma removeChannel_absent:
  "ch \<notin> set chs \<Longrightarrow> removeChannel chs ch w = Returns (chs, chs, w)"
  by (simp add: removeChannel_def removeChannel_from_absent)

lemma removeChannel_from_present:
  "ch \<in> set (drop i chs) \<Longrightarrow> ch \<notin> set (closed_chans w) \<Longrightarrow>
   \<exists>j<length chs. chs ! j = ch \<and>
     removeChannel_from i chs ch w =
       Returns (chs[length chs - 1 := ch, j := chs ! (length chs - 1)],
                take (length chs - 1) (chs[length chs - 1 := ch, j := chs ! (length chs - 1)]),
                w\<lparr>closed_chans := closed_chans w @ [ch]\<rparr>)"
proof (induction i chs ch w rule: removeChannel_from.induct)
  case (1 i chs ch w)
  from "1.prems"(1) have lt: "i < length chs"
    by (cases "i < length chs") auto
  then have d: "drop i chs = chs ! i # drop (Suc i) chs"
    by (simp add: Cons_nth_drop_Suc)
  show ?case
  proof (cases "chs ! i = ch")
    case True
    with lt "1.prems"(2) have
      "removeChannel_from i chs ch w =
         Returns (chs[length chs - 1 := ch, i := chs ! (length chs - 1)],
                  take (length chs - 1) (chs[length chs - 1 := ch, i := chs ! (length chs - 1)]),
                  w\<lparr>closed_chans := closed_chans w @ [ch]\<rparr>)"
      by (subst removeChannel_from.simps) (simp add: close_chan_def Let_def)
    with lt True show ?thesis by blast
  next
    case False
    with d "1.prems"(1) have rest: "ch \<in> set (drop (Suc i) chs)" by auto
    from "1.IH"[OF lt False rest "1.prems"(2)] lt False show ?thesis
      by (subst removeChannel_from.simps) simp
  qed
qed

lemma removeChannel_from_closed:
  "ch \<in> set (drop i chs) \<Longrightarrow> ch \<in> set (closed_chans w) \<Longrightarrow>
   removeChannel_from i chs ch w = Panics (CloseOfClosedChannel ch)"
proof (induction i chs ch w rule: removeChannel_from.induct)
  case (1 i chs ch w)
  from "1.prems"(1) have lt: "i < length chs"
    by (cases "i < length chs") auto
  then have d: "drop i chs = chs ! i # drop (Suc i) chs"
    by (simp add: Cons_nth_drop_Suc)
  show ?case
  proof (cases "chs ! i = ch")
    case True
    with lt "1.prems"(2) show ?thesis
      by (subst removeChannel_from.simps) (simp add: close_chan_def Let_def)
  next
    case False
    with d "1.prems"(1) have rest: "ch \<in> set (drop (Suc i) chs)" by auto
    from "1.IH"[OF lt False rest "1.prems"(2)] lt False show ?thesis
      by (subst removeChannel_from.simps) simp
  qed
qed

lemma swap_last_take:
  assumes "distinct chs" and "j < length chs"
  defines "arr \<equiv> chs[length chs - 1 := chs ! j, j := chs ! (length chs - 1)]"
  shows "set (take (length chs - 1) arr) = set chs - {chs ! j}"
    and "distinct (take (length chs - 1) arr)"
    and "length (take (length chs - 1) arr) = length chs - 1"
proof -
  have len: "length arr = length chs" by (simp add: arr_def)
  have ms: "mset arr = mset chs"
    using assms(2) unfolding arr_def by (simp add: mset_swap)
  have lastj: "arr ! (length chs - 1) = chs ! j"
    using assms(2) unfolding arr_def by (cases "j = length chs - 1") simp_all
  have ne: "arr \<noteq> []" using assms(2) len by auto
  have split: "arr = take (length chs - 1) arr @ [chs ! j]"
    using ne len lastj
    by (metis append_butlast_last_id butlast_conv_take last_conv_nth)
  have d: "distinct arr" using ms assms(1) by (metis mset_eq_imp_distinct_iff)
  have s: "set arr = set chs" using ms by (metis mset_eq_setD)
  from d split have "distinct (take (length chs - 1) arr @ [chs ! j])" by simp
  then have notin: "chs ! j \<notin> set (take (length chs - 1) arr)" by simp
  from split have "set arr = insert (chs ! j) (set (take (length chs - 1) arr))"
    by (metis Un_insert_right list.set(1) list.set(2) set_append sup_bot.right_neutral)
  with s notin show "set (take (length chs - 1) arr) = set chs - {chs ! j}" by auto
  from d show "distinct (take (length chs - 1) arr)" by (rule distinct_take)
  show "length (take (length chs - 1) arr) = length chs - 1" using len by simp
qed

lemma removeChannel_present:
  assumes "ch \<in> set chs" and "distinct chs" and "ch \<notin> set (closed_chans w)"
  shows "\<exists>arr res. removeChannel chs ch w =
            Returns (arr, res, w\<lparr>closed_chans := closed_chans w @ [ch]\<rparr>)
          \<and> set res = set chs - {ch} \<and> distinct res \<and> length res = length chs - 1"
proof -
  from removeChannel_from_present[of ch 0 chs w] assms
  obtain j where j: "j < length chs" "chs ! j = ch"
    and r: "removeChannel_from 0 chs ch w =
       Returns (chs[length chs - 1 := ch, j := chs ! (length chs - 1)],
                take (length chs - 1) (chs[length chs - 1 := ch, j := chs ! (length chs - 1)]),
                w\<lparr>closed_chans := closed_chans w @ [ch]\<rparr>)"
    by auto
  from swap_last_take[OF assms(2) j(1)] j(2) r show ?thesis
    by (simp add: removeChannel_def)
qed

lemma removeChannel_open_at:
  assumes "distinct arr" and "i < length arr" and "arr ! i \<notin> set (closed_chans w)"
  shows "removeChannel arr (arr ! i) w =
           Returns (arr[length arr - 1 := arr ! i, i := arr ! (length arr - 1)],
                    take (length arr - 1)
                      (arr[length arr - 1 := arr ! i, i := arr ! (length arr - 1)]),
                    w\<lparr>closed_chans := closed_chans w @ [arr ! i]\<rparr>)"
proof -
  from assms(2) have "arr ! i \<in> set (drop 0 arr)" by simp
  from removeChannel_from_present[OF this assms(3)]
  obtain j where j: "j < length arr" "arr ! j = arr ! i"
    and r: "removeChannel_from 0 arr (arr ! i) w =
       Returns (arr[length arr - 1 := arr ! i, j := arr ! (length arr - 1)],
                take (length arr - 1)
                  (arr[length arr - 1 := arr ! i, j := arr ! (length arr - 1)]),
                w\<lparr>closed_chans := closed_chans w @ [arr ! i]\<rparr>)"
    by blast
  from j assms(1,2) have "j = i" by (simp add: nth_eq_iff_index_eq)
  with r show ?thesis by (simp add: removeChannel_def)
qed

subsection \<open>Closing the consumers of an entry\<close>

lemma closeConsumers_loop_world:
  "snd (closeConsumers_loop e cs err w) = w\<lparr>calls := calls w @ close_calls cs\<rparr>"
  by (induction e cs err w rule: closeConsumers_loop.induct)
     (auto simp: invoke_def split: option.splits prod.splits)

lemma closeConsumers_loop_error:
  "fst (closeConsumers_loop e cs err w) =
     (let fs = close_failures e (calls w) (close_calls cs)
      in if fs = [] then err else if absorbed e (last fs) then None else Some (last fs))"
  by (induction e cs err w rule: closeConsumers_loop.induct)
     (auto simp: invoke_def absorbed_def Let_def split: option.splits prod.splits)

lemma closeConsumers_world:
  "snd (closeConsumers e cs w) = w\<lparr>calls := calls w @ close_calls cs\<rparr>"
  by (simp add: closeConsumers_def closeConsumers_loop_world)

lemma closeConsumers_error:
  "fst (closeConsumers e cs w) =
     (let fs = close_failures e (calls w) (close_calls cs)
      in if fs = [] then None else if absorbed e (last fs) then None else Some (last fs))"
  by (simp add: closeConsumers_def closeConsumers_loop_error)

subsection \<open>UnSubscribe\<close>

text \<open>
  C10. When the topic has a registry entry with a non-empty channel collection and the
  channel is not in that collection, \<open>UnSubscribe\<close> returns nil and leaves the whole world
  as it was: no channel and no consumer is closed, the collection is unchanged.
\<close>

theorem UnSubscribe_channel_not_registered:
  assumes "map_get (topicToConsumerChannelMap w) (Name topic) = Some p"
      and "channels (entries w p) \<noteq> []"
      and "ch \<notin> set (channels (entries w p))"
  shows "UnSubscribe e topic ch w = Returns (None, w)"
  using assms
  by (simp add: UnSubscribe_def removeChannelFromConsumerChannelMap_def
      removeChannel_absent set_channels_same)

theorem UnSubscribe_channel_not_registered_witness:
  "map_get (topicToConsumerChannelMap subscribed) (Name events) = Some 5 \<and>
   channels (entries subscribed 5) = [4] \<and>
   UnSubscribe example_env events 9 subscribed = Returns (None, subscribed)"
proof -
  have a: "map_get (topicToConsumerChannelMap subscribed) (Name events) = Some 5"
    by (simp add: subscribed_eq map_get_def events_def)
  have b: "channels (entries subscribed 5) = [4]"
    by (simp add: subscribed_eq)
  from b have c: "channels (entries subscribed 5) \<noteq> []" and d: "9 \<notin> set (channels (entries subscribed 5))"
    by simp_all
  from a b UnSubscribe_channel_not_registered[OF a c d, of example_env] show ?thesis
    by simp
qed


text \<open>
  \<open>UnSubscribe\<close> in general. With no registry entry for the topic, it returns the error
  topic-does-not-exist and changes nothing. With an entry whose channels are distinct and
  hold the open channel \<open>ch\<close>, it closes \<open>ch\<close> and removes it from the entry; if that leaves the collection
  empty, it calls \<open>Close\<close> once on every consumer of the entry, in order, deletes the entry
  and returns the outcome of those closes: nil when every failure is absorbed (its text is
  that of the unknown-topic-or-partition error), and the last failure when that one is not
  absorbed. Otherwise it returns nil and calls no library.
\<close>

theorem UnSubscribe_registered_channel:
  "(map_get (topicToConsumerChannelMap w) (Name topic) = None \<longrightarrow>
      UnSubscribe e topic ch w = Returns (Some (ErrorNew ''topic-does-not-exist''), w)) \<and>
   (\<forall>p. map_get (topicToConsumerChannelMap w) (Name topic) = Some p \<and>
        ch \<in> set (channels (entries w p)) \<and> distinct (channels (entries w p)) \<and>
        ch \<notin> set (closed_chans w) \<longrightarrow>
      (\<exists>err w'. UnSubscribe e topic ch w = Returns (err, w') \<and>
         closed_chans w' = closed_chans w @ [ch] \<and>
         set (channels (entries w' p)) = set (channels (entries w p)) - {ch} \<and>
         consumers (entries w' p) = consumers (entries w p) \<and>
         (if channels (entries w' p) = []
          then calls w' = calls w @ close_calls (consumers (entries w p)) \<and>
               map_get (topicToConsumerChannelMap w') (Name topic) = None \<and>
               (let fs = close_failures e (calls w) (close_calls (consumers (entries w p)))
                in ((\<forall>x \<in> set fs. absorbed e x) \<longrightarrow> err = None) \<and>
                   (fs \<noteq> [] \<and> \<not> absorbed e (last fs) \<longrightarrow> err = Some (last fs)))
          else calls w' = calls w \<and> err = None \<and>
               topicToConsumerChannelMap w' = topicToConsumerChannelMap w)))"
proof (intro conjI allI impI)
  assume "map_get (topicToConsumerChannelMap w) (Name topic) = None"
  then show "UnSubscribe e topic ch w = Returns (Some (ErrorNew ''topic-does-not-exist''), w)"
    by (simp add: UnSubscribe_def removeChannelFromConsumerChannelMap_def)
next
  fix p
  assume a: "map_get (topicToConsumerChannelMap w) (Name topic) = Some p \<and>
        ch \<in> set (channels (entries w p)) \<and> distinct (channels (entries w p)) \<and>
        ch \<notin> set (closed_chans w)"
  let ?chs = "channels (entries w p)"
  from removeChannel_present[of ch ?chs w] a
  obtain arr res where r: "removeChannel ?chs ch w =
            Returns (arr, res, w\<lparr>closed_chans := closed_chans w @ [ch]\<rparr>)"
    and res: "set res = set ?chs - {ch}" "distinct res" "length res = length ?chs - 1"
    by blast
  let ?w2 = "set_channels p res (w\<lparr>closed_chans := closed_chans w @ [ch]\<rparr>)"
  have w2: "channels (entries ?w2 p) = res" "consumers (entries ?w2 p) = consumers (entries w p)"
    "calls ?w2 = calls w" "closed_chans ?w2 = closed_chans w @ [ch]"
    "topicToConsumerChannelMap ?w2 = topicToConsumerChannelMap w"
    by (simp_all add: set_channels_def)
  show "\<exists>err w'. UnSubscribe e topic ch w = Returns (err, w') \<and>
         closed_chans w' = closed_chans w @ [ch] \<and>
         set (channels (entries w' p)) = set (channels (entries w p)) - {ch} \<and>
         consumers (entries w' p) = consumers (entries w p) \<and>
         (if channels (entries w' p) = []
          then calls w' = calls w @ close_calls (consumers (entries w p)) \<and>
               map_get (topicToConsumerChannelMap w') (Name topic) = None \<and>
               (let fs = close_failures e (calls w) (close_calls (consumers (entries w p)))
                in ((\<forall>x \<in> set fs. absorbed e x) \<longrightarrow> err = None) \<and>
                   (fs \<noteq> [] \<and> \<not> absorbed e (last fs) \<longrightarrow> err = Some (last fs)))
          else calls w' = calls w \<and> err = None \<and>
               topicToConsumerChannelMap w' = topicToConsumerChannelMap w)"
  proof (cases "res = []")
    case False
    with a r w2 have "UnSubscribe e topic ch w = Returns (None, ?w2)"
      by (simp add: UnSubscribe_def removeChannelFromConsumerChannelMap_def Let_def)
    with w2 res False show ?thesis by simp
  next
    case True
    let ?cs = "consumers (entries w p)"
    let ?r = "closeConsumers e ?cs ?w2"
    let ?w3 = "(snd ?r)\<lparr>topicToConsumerChannelMap :=
                 map_delete (topicToConsumerChannelMap (snd ?r)) (Name topic)\<rparr>"
    from a r w2 True have u: "UnSubscribe e topic ch w = Returns (fst ?r, ?w3)"
      by (simp add: UnSubscribe_def removeChannelFromConsumerChannelMap_def Let_def
          split: prod.splits)
    have s: "snd ?r = ?w2\<lparr>calls := calls w @ close_calls ?cs\<rparr>"
      using closeConsumers_world[of e ?cs ?w2] w2 by simp
    have f: "fst ?r = (let fs = close_failures e (calls w) (close_calls ?cs)
      in if fs = [] then None else if absorbed e (last fs) then None else Some (last fs))"
      using closeConsumers_error[of e ?cs ?w2] w2 by simp
    have del: "map_get (topicToConsumerChannelMap ?w3) (Name topic) = None"
      by (simp add: map_get_def map_delete_def split: option.splits)
    have e3: "entries ?w3 = entries ?w2" "closed_chans ?w3 = closed_chans ?w2"
      "calls ?w3 = calls w @ close_calls ?cs"
      using s by simp_all
    show ?thesis
      apply (rule exI[of _ "fst ?r"], rule exI[of _ ?w3])
      using u del e3 w2 res True f
      by (auto simp: Let_def)
  qed
qed

lemma subscribed_facts:
  "map_get (topicToConsumerChannelMap subscribed) (Name events) = Some 5"
  "entries subscribed 5 = \<lparr>consumers = [PartitionConsumer_if 3], channels = [4]\<rparr>"
  "closed_chans subscribed = []"
  "calls subscribed = calls started @ [Consumer_Partitions 2 ''events'',
      Consumer_ConsumePartition 2 ''events'' 0 (- 1)]"
  by (simp_all add: subscribed_eq started_eq map_get_def events_def)

lemma subscribed_twice_facts:
  "map_get (topicToConsumerChannelMap subscribed_twice) (Name events) = Some 5"
  "entries subscribed_twice 5 = \<lparr>consumers = [PartitionConsumer_if 3], channels = [4, 6]\<rparr>"
  "closed_chans subscribed_twice = []"
  "calls subscribed_twice = calls subscribed"
  "cAdmin subscribed_twice = Some 0"
  "producer subscribed_twice = Some 1"
  "consumer subscribed_twice = Some 2"
  "groupConsumer subscribed_twice = None"
  "doneCh subscribed_twice = Some []"
  by (simp_all add: subscribed_twice_eq subscribed_eq started_eq map_get_def events_def)

theorem UnSubscribe_registered_channel_witness:
  "UnSubscribe example_env events 4 started =
     Returns (Some (ErrorNew ''topic-does-not-exist''), started) \<and>
   (\<exists>w'. UnSubscribe example_env events 4 subscribed = Returns (None, w') \<and>
      closed_chans w' = [4] \<and> channels (entries w' 5) = [] \<and>
      calls w' = calls subscribed @ [PartitionConsumer_Close 3] \<and>
      map_get (topicToConsumerChannelMap w') ''events'' = None) \<and>
   (\<exists>w'. UnSubscribe example_env events 4 subscribed_twice = Returns (None, w') \<and>
      closed_chans w' = [4] \<and> set (channels (entries w' 5)) = {6} \<and>
      calls w' = calls subscribed_twice \<and>
      map_get (topicToConsumerChannelMap w') ''events'' = Some 5)"
proof -
  have n: "map_get (topicToConsumerChannelMap started) (Name events) = None"
    by (simp add: started_eq map_get_def)
  have one: "UnSubscribe example_env events 4 started =
     Returns (Some (ErrorNew ''topic-does-not-exist''), started)"
    using UnSubscribe_registered_channel[where w = started and topic = events
        and e = example_env and ch = 4] n
    by blast
  have h2: "map_get (topicToConsumerChannelMap subscribed) (Name events) = Some 5 \<and>
        4 \<in> set (channels (entries subscribed 5)) \<and> distinct (channels (entries subscribed 5)) \<and>
        4 \<notin> set (closed_chans subscribed)"
    by (simp add: subscribed_facts)
  from UnSubscribe_registered_channel[where w = subscribed and topic = events
        and e = example_env and ch = 4, THEN conjunct2, rule_format, OF h2]
  obtain err w' where u: "UnSubscribe example_env events 4 subscribed = Returns (err, w')"
    and c: "closed_chans w' = closed_chans subscribed @ [4]"
    and s: "set (channels (entries w' 5)) = set (channels (entries subscribed 5)) - {4}"
    and i: "if channels (entries w' 5) = []
          then calls w' = calls subscribed @ close_calls (consumers (entries subscribed 5)) \<and>
               map_get (topicToConsumerChannelMap w') (Name events) = None \<and>
               (let fs = close_failures example_env (calls subscribed)
                           (close_calls (consumers (entries subscribed 5)))
                in ((\<forall>x \<in> set fs. absorbed example_env x) \<longrightarrow> err = None) \<and>
                   (fs \<noteq> [] \<and> \<not> absorbed example_env (last fs) \<longrightarrow> err = Some (last fs)))
          else calls w' = calls subscribed \<and> err = None \<and>
               topicToConsumerChannelMap w' = topicToConsumerChannelMap subscribed"
    by blast
  from s have emp: "channels (entries w' 5) = []" by (simp add: subscribed_facts)
  from i emp have "err = None"
    by (simp add: subscribed_facts example_env_def)
  with u c i emp have two: "\<exists>w'. UnSubscribe example_env events 4 subscribed = Returns (None, w') \<and>
      closed_chans w' = [4] \<and> channels (entries w' 5) = [] \<and>
      calls w' = calls subscribed @ [PartitionConsumer_Close 3] \<and>
      map_get (topicToConsumerChannelMap w') ''events'' = None"
    by (auto simp: subscribed_facts(2,3) events_def)
  have h3: "map_get (topicToConsumerChannelMap subscribed_twice) (Name events) = Some 5 \<and>
        4 \<in> set (channels (entries subscribed_twice 5)) \<and>
        distinct (channels (entries subscribed_twice 5)) \<and>
        4 \<notin> set (closed_chans subscribed_twice)"
    by (simp add: subscribed_twice_facts)
  from UnSubscribe_registered_channel[where w = subscribed_twice and topic = events
        and e = example_env and ch = 4, THEN conjunct2, rule_format, OF h3]
  obtain err2 w2 where u2: "UnSubscribe example_env events 4 subscribed_twice = Returns (err2, w2)"
    and c2: "closed_chans w2 = closed_chans subscribed_twice @ [4]"
    and s2: "set (channels (entries w2 5)) = set (channels (entries subscribed_twice 5)) - {4}"
    and i2: "if channels (entries w2 5) = []
          then calls w2 = calls subscribed_twice @
                 close_calls (consumers (entries subscribed_twice 5)) \<and>
               map_get (topicToConsumerChannelMap w2) (Name events) = None \<and>
               (let fs = close_failures example_env (calls subscribed_twice)
                           (close_calls (consumers (entries subscribed_twice 5)))
                in ((\<forall>x \<in> set fs. absorbed example_env x) \<longrightarrow> err2 = None) \<and>
                   (fs \<noteq> [] \<and> \<not> absorbed example_env (last fs) \<longrightarrow> err2 = Some (last fs)))
          else calls w2 = calls subscribed_twice \<and> err2 = None \<and>
               topicToConsumerChannelMap w2 = topicToConsumerChannelMap subscribed_twice"
    by blast
  from s2 have s2': "set (channels (entries w2 5)) = {6}"
    by (auto simp: subscribed_twice_facts)
  then have ne: "channels (entries w2 5) \<noteq> []" by auto
  from i2 ne have r2: "calls w2 = calls subscribed_twice" "err2 = None"
    "topicToConsumerChannelMap w2 = topicToConsumerChannelMap subscribed_twice"
    by simp_all
  from subscribed_twice_facts(1) r2(3)
  have "map_get (topicToConsumerChannelMap w2) ''events'' = Some 5"
    by (simp add: events_def)
  with u2 c2 s2' r2 have three: "\<exists>w'. UnSubscribe example_env events 4 subscribed_twice =
      Returns (None, w') \<and>
      closed_chans w' = [4] \<and> set (channels (entries w' 5)) = {6} \<and>
      calls w' = calls subscribed_twice \<and>
      map_get (topicToConsumerChannelMap w') ''events'' = Some 5"
    by (auto simp: subscribed_twice_facts(3))
  from one two three show ?thesis by blast
qed

text \<open>
  A \<open>Close\<close> that fails with the unknown-topic error is absorbed: \<open>UnSubscribe\<close> of the
  last channel returns nil.
\<close>

theorem UnSubscribe_close_error_absorbed:
  "fails close_unknown_env (calls subscribed) (PartitionConsumer_Close 3) =
     Some ErrUnknownTopicOrPartition \<and>
   (\<exists>w'. UnSubscribe close_unknown_env events 4 subscribed = Returns (None, w') \<and>
      calls w' = calls subscribed @ [PartitionConsumer_Close 3] \<and>
      map_get (topicToConsumerChannelMap w') ''events'' = None)"
proof -
  have f: "fails close_unknown_env (calls subscribed) (PartitionConsumer_Close 3) =
     Some ErrUnknownTopicOrPartition"
    by (simp add: close_unknown_env_def example_env_def)
  have rc: "removeChannel [4] 4 subscribed =
      Returns ([4], [], subscribed\<lparr>closed_chans := [4]\<rparr>)"
    by (simp add: removeChannel_def removeChannel_from.simps close_chan_def subscribed_facts)
  let ?w2 = "set_channels 5 [] (subscribed\<lparr>closed_chans := [4]\<rparr>)"
  have w2: "channels (entries ?w2 5) = []"
    "consumers (entries ?w2 5) = [PartitionConsumer_if 3]" "calls ?w2 = calls subscribed"
    by (simp_all add: set_channels_def subscribed_facts)
  have cc: "closeConsumers close_unknown_env [PartitionConsumer_if 3] ?w2 =
      (None, ?w2\<lparr>calls := calls subscribed @ [PartitionConsumer_Close 3]\<rparr>)"
    using f by (simp add: closeConsumers_def invoke_def w2)
  have "UnSubscribe close_unknown_env events 4 subscribed =
      Returns (None, ?w2\<lparr>calls := calls subscribed @ [PartitionConsumer_Close 3],
        topicToConsumerChannelMap := map_delete (topicToConsumerChannelMap ?w2) ''events''\<rparr>)"
    using subscribed_facts(1)
    by (simp add: UnSubscribe_def removeChannelFromConsumerChannelMap_def subscribed_facts(2)
        rc w2 cc events_def Let_def)
  with f show ?thesis
    by (simp add: map_get_def map_delete_def split: option.splits)
qed

lemma subscribed_two_partitions_eq:
  "subscribed_two_partitions =
     started\<lparr>topicToConsumerChannelMap := Some [''events'' \<mapsto> 6],
       entries := (\<lambda>p. \<lparr>consumers = [], channels = []\<rparr>)
                    (6 := \<lparr>consumers = [PartitionConsumer_if 3, PartitionConsumer_if 4],
                          channels = [5]\<rparr>),
       fresh := 7,
       calls := calls started @ [Consumer_Partitions 2 ''events'',
                  Consumer_ConsumePartition 2 ''events'' 0 (- 1),
                  Consumer_ConsumePartition 2 ''events'' 1 (- 1)],
       goroutines := [(Go_startConsumers events, 6)]\<rparr>"
  unfolding started_eq subscribed_two_partitions_def
  by (simp add: eval_defs two_partition_env_def)

lemma subscribed_two_partitions_facts:
  "map_get (topicToConsumerChannelMap subscribed_two_partitions) (Name events) = Some 6"
  "entries subscribed_two_partitions 6 =
     \<lparr>consumers = [PartitionConsumer_if 3, PartitionConsumer_if 4], channels = [5]\<rparr>"
  "closed_chans subscribed_two_partitions = []"
  by (simp_all add: subscribed_two_partitions_eq started_eq map_get_def events_def)

text \<open>
  C2 (the code fails the claim). A topic with two partition consumers and one subscriber
  channel. \<open>UnSubscribe\<close> of that channel closes the channel, closes both consumers and
  deletes the entry, as claimed. The \<open>Close\<close> of the first consumer fails with the error
  broker down. When the \<open>Close\<close> of the second consumer answers
  unknown-topic-or-partition, \<open>closeConsumers\<close> sets its \<open>err\<close> to nil and the genuine
  error of the first is lost: \<open>UnSubscribe\<close> returns nil. When the second \<open>Close\<close>
  succeeds instead, the error of the first is returned.
\<close>

theorem UnSubscribe_loses_close_error:
  "consumers (entries subscribed_two_partitions 6) =
     [PartitionConsumer_if 3, PartitionConsumer_if 4] \<and>
   channels (entries subscribed_two_partitions 6) = [5] \<and>
   fails close_reset_env (calls subscribed_two_partitions) (PartitionConsumer_Close 3) =
     Some (ErrorNew ''broker down'') \<and>
   fails close_reset_env (calls subscribed_two_partitions @ [PartitionConsumer_Close 3])
     (PartitionConsumer_Close 4) = Some ErrUnknownTopicOrPartition \<and>
   (\<exists>w'. UnSubscribe close_reset_env events 5 subscribed_two_partitions = Returns (None, w') \<and>
      closed_chans w' = [5] \<and>
      calls w' = calls subscribed_two_partitions @
        [PartitionConsumer_Close 3, PartitionConsumer_Close 4] \<and>
      map_get (topicToConsumerChannelMap w') ''events'' = None) \<and>
   (\<exists>w'. UnSubscribe close_first_fails_env events 5 subscribed_two_partitions =
            Returns (Some (ErrorNew ''broker down''), w') \<and>
      calls w' = calls subscribed_two_partitions @
        [PartitionConsumer_Close 3, PartitionConsumer_Close 4])"
proof -
  let ?W = subscribed_two_partitions
  let ?cs = "[PartitionConsumer_if 3, PartitionConsumer_if 4]"
  have f: "fails close_reset_env (calls ?W) (PartitionConsumer_Close 3) =
      Some (ErrorNew ''broker down'')"
    "fails close_reset_env (calls ?W @ [PartitionConsumer_Close 3]) (PartitionConsumer_Close 4) =
      Some ErrUnknownTopicOrPartition"
    by (simp_all add: close_reset_env_def two_partition_env_def example_env_def)
  have rc: "removeChannel [5] 5 ?W = Returns ([5], [], ?W\<lparr>closed_chans := [5]\<rparr>)"
    by (simp add: removeChannel_def removeChannel_from.simps close_chan_def
        subscribed_two_partitions_facts)
  let ?w2 = "set_channels 6 [] (?W\<lparr>closed_chans := [5]\<rparr>)"
  have w2: "channels (entries ?w2 6) = []" "consumers (entries ?w2 6) = ?cs"
    "calls ?w2 = calls ?W" "closed_chans ?w2 = [5]"
    by (simp_all add: set_channels_def subscribed_two_partitions_facts)
  let ?w3 = "?w2\<lparr>calls := calls ?W @ [PartitionConsumer_Close 3, PartitionConsumer_Close 4]\<rparr>"
  have cc1: "closeConsumers close_reset_env ?cs ?w2 = (None, ?w3)"
    by (simp add: closeConsumers_def invoke_def w2 close_reset_env_def two_partition_env_def
        example_env_def ErrUnknownTopicOrPartition_def)
  have cc2: "closeConsumers close_first_fails_env ?cs ?w2 = (Some (ErrorNew ''broker down''), ?w3)"
    by (simp add: closeConsumers_def invoke_def w2 close_first_fails_env_def
        two_partition_env_def example_env_def ErrUnknownTopicOrPartition_def)
  let ?w4 = "?w3\<lparr>topicToConsumerChannelMap :=
               map_delete (topicToConsumerChannelMap ?w2) ''events''\<rparr>"
  have u1: "UnSubscribe close_reset_env events 5 ?W = Returns (None, ?w4)"
    using subscribed_two_partitions_facts(1)
    by (simp add: UnSubscribe_def removeChannelFromConsumerChannelMap_def
        subscribed_two_partitions_facts(2) rc w2 cc1 events_def Let_def)
  have u2: "UnSubscribe close_first_fails_env events 5 ?W =
      Returns (Some (ErrorNew ''broker down''), ?w4)"
    using subscribed_two_partitions_facts(1)
    by (simp add: UnSubscribe_def removeChannelFromConsumerChannelMap_def
        subscribed_two_partitions_facts(2) rc w2 cc2 events_def Let_def)
  have w4: "closed_chans ?w4 = [5]"
    "calls ?w4 = calls ?W @ [PartitionConsumer_Close 3, PartitionConsumer_Close 4]"
    "map_get (topicToConsumerChannelMap ?w4) ''events'' = None"
    by (simp_all add: w2 map_get_def map_delete_def split: option.splits)
  from f u1 u2 w4 show ?thesis
    by (simp add: subscribed_two_partitions_facts(2))
qed

subsection \<open>Clearing a topic: the range over a slice that is permuted under it\<close>

lemma removeChannels_range_panics_from:
  assumes "distinct arr" and "length arr = length xs" and "i + k = length arr" and "1 \<le> k"
      and "2 \<le> length arr"
      and "1 \<le> i \<longrightarrow> arr ! (length arr - 1) = xs ! (i - 1) \<and> xs ! (i - 1) \<in> set (closed_chans w)"
      and "\<forall>j. i \<le> j \<and> j < length arr - 1 \<longrightarrow> arr ! j = xs ! j \<and> xs ! j \<notin> set (closed_chans w)"
  shows "removeChannels_range k i arr w = Panics (CloseOfClosedChannel (xs ! (length xs - 2)))"
  using assms
proof (induction k arbitrary: i arr w)
  case 0
  then show ?case by simp
next
  case (Suc k)
  let ?n = "length arr"
  show ?case
  proof (cases "k = 0")
    case True
    with Suc.prems have i: "i = ?n - 1" "1 \<le> i" by auto
    with Suc.prems have cl: "arr ! i = xs ! (i - 1)" "arr ! i \<in> set (closed_chans w)" by auto
    from i Suc.prems(5) have "i < length arr" by simp
    then have "arr ! i \<in> set (drop 0 arr)" by simp
    from removeChannel_from_closed[OF this cl(2)] cl(1) i Suc.prems(2) True show ?thesis
      by (simp add: removeChannel_def numeral_2_eq_2)
  next
    case False
    with Suc.prems have i: "i < ?n - 1" by auto
    with Suc.prems have op: "arr ! i = xs ! i" "arr ! i \<notin> set (closed_chans w)" by auto
    let ?arr1 = "arr[?n - 1 := arr ! i, i := arr ! (?n - 1)]"
    let ?w1 = "w\<lparr>closed_chans := closed_chans w @ [arr ! i]\<rparr>"
    from i have il: "i < ?n" by simp
    have step: "removeChannels_range (Suc k) i arr w = removeChannels_range k (Suc i) ?arr1 ?w1"
      using removeChannel_open_at[OF Suc.prems(1) il op(2)] by simp
    have d1: "distinct ?arr1"
      using Suc.prems(1) il by simp
    have l1: "length ?arr1 = length xs" using Suc.prems(2) by simp
    have last1: "?arr1 ! (length ?arr1 - 1) = xs ! (Suc i - 1) \<and>
        xs ! (Suc i - 1) \<in> set (closed_chans ?w1)"
      using i op(1) by simp
    have rest1: "\<forall>j. Suc i \<le> j \<and> j < length ?arr1 - 1 \<longrightarrow>
        ?arr1 ! j = xs ! j \<and> xs ! j \<notin> set (closed_chans ?w1)"
    proof (intro allI impI)
      fix j assume j: "Suc i \<le> j \<and> j < length ?arr1 - 1"
      then have a: "?arr1 ! j = arr ! j" by simp
      from j Suc.prems(7) have b: "arr ! j = xs ! j" "xs ! j \<notin> set (closed_chans w)" by auto
      from j have jl: "j < length arr" and ji: "j \<noteq> i" by auto
      from nth_eq_iff_index_eq[OF Suc.prems(1) jl il] ji have "arr ! j \<noteq> arr ! i"
        by simp
      with a b show "?arr1 ! j = xs ! j \<and> xs ! j \<notin> set (closed_chans ?w1)" by simp
    qed
    from False have k1: "1 \<le> k" by simp
    from Suc.prems(3) have sum1: "Suc i + k = length ?arr1" by simp
    from Suc.prems(5) have two: "2 \<le> length ?arr1" by simp
    have "removeChannels_range k (Suc i) ?arr1 ?w1 =
            Panics (CloseOfClosedChannel (xs ! (length xs - 2)))"
      using Suc.IH[OF d1 l1 sum1 k1 two] last1 rest1 by blast
    with step show ?thesis by simp
  qed
qed

text \<open>
  An entry with two or more channels, distinct and open: the range closes each channel
  but the last one, which it never reaches, and on its last iteration closes again the
  channel it closed just before.
\<close>

lemma removeChannels_range_panics:
  assumes "distinct xs" and "2 \<le> length xs" and "\<forall>c \<in> set xs. c \<notin> set (closed_chans w)"
  shows "removeChannels_range (length xs) 0 xs w =
           Panics (CloseOfClosedChannel (xs ! (length xs - 2)))"
  using removeChannels_range_panics_from[of xs xs 0 "length xs" w] assms
  by simp

lemma clearTopicFromConsumerChannelMap_panics:
  assumes "map_get (topicToConsumerChannelMap w) (Name topic) = Some p"
      and "distinct (channels (entries w p))" and "2 \<le> length (channels (entries w p))"
      and "\<forall>c \<in> set (channels (entries w p)). c \<notin> set (closed_chans w)"
  shows "clearTopicFromConsumerChannelMap e topic w =
           Panics (CloseOfClosedChannel
             (channels (entries w p) ! (length (channels (entries w p)) - 2)))"
  using assms removeChannels_range_panics[OF assms(2,3,4)]
  by (simp add: clearTopicFromConsumerChannelMap_def)

text \<open>
  C3 (the code fails the claim). Two subscribers on one topic, then the topic is cleared:
  \<open>clearTopicFromConsumerChannelMap\<close> (and with it \<open>DeleteTopic\<close>) and
  \<open>clearConsumerChannelMap\<close> (and with it \<open>Stop\<close>) close channel 4 a second time, which
  is a panic, and never close channel 6.
\<close>

theorem clear_closes_channel_twice:
  "channels (entries subscribed_twice 5) = [4, 6] \<and> closed_chans subscribed_twice = [] \<and>
   clearTopicFromConsumerChannelMap example_env events subscribed_twice =
     Panics (CloseOfClosedChannel 4) \<and>
   DeleteTopic example_env events subscribed_twice = Panics (CloseOfClosedChannel 4) \<and>
   clearConsumerChannelMap example_env [''events''] subscribed_twice =
     Panics (CloseOfClosedChannel 4) \<and>
   Stop example_env [''events''] subscribed_twice = Panics (CloseOfClosedChannel 4)"
proof -
  have r: "removeChannels_range (length [4, 6]) 0 [4, 6] w = Panics (CloseOfClosedChannel 4)"
    if "closed_chans w = []" for w :: world
    using that
    by (simp add: removeChannel_def removeChannel_from.simps close_chan_def)
  have t: "clearTopicFromConsumerChannelMap example_env events w =
     Panics (CloseOfClosedChannel 4)"
    if "closed_chans w = []" "map_get (topicToConsumerChannelMap w) (Name events) = Some 5"
       "channels (entries w 5) = [4, 6]" for w
    using that r[of w] by (simp add: clearTopicFromConsumerChannelMap_def)
  have a: "clearTopicFromConsumerChannelMap example_env events subscribed_twice =
     Panics (CloseOfClosedChannel 4)"
    by (rule t) (simp_all add: subscribed_twice_facts)
  have b: "DeleteTopic example_env events subscribed_twice = Panics (CloseOfClosedChannel 4)"
  proof -
    let ?w1 = "subscribed_twice\<lparr>calls := calls subscribed_twice @ [Admin_DeleteTopic 0 ''events'']\<rparr>"
    have "clearTopicFromConsumerChannelMap example_env events ?w1 =
       Panics (CloseOfClosedChannel 4)"
      using subscribed_twice_facts(1) by (intro t) (simp_all add: subscribed_twice_facts(2-))
    then show ?thesis
      by (simp add: DeleteTopic_def subscribed_twice_facts(5) invoke_def example_env_def
          events_def)
  qed
  have c: "clearConsumerChannelMap example_env [''events''] w =
     Panics (CloseOfClosedChannel 4)"
    if "closed_chans w = []" "map_get (topicToConsumerChannelMap w) ''events'' = Some 5"
       "channels (entries w 5) = [4, 6]" for w
    using that r[of w] by (simp add: clearConsumerChannelMap_def)
  have c0: "clearConsumerChannelMap example_env [''events''] subscribed_twice =
     Panics (CloseOfClosedChannel 4)"
    using subscribed_twice_facts(1) by (intro c) (simp_all add: subscribed_twice_facts(2-) events_def)
  have d: "Stop example_env [''events''] subscribed_twice = Panics (CloseOfClosedChannel 4)"
  proof -
    let ?w4 = "subscribed_twice\<lparr>doneCh := Some [1],
      calls := calls subscribed_twice @ [Producer_Close 1, Consumer_Close 2, Admin_Close 0]\<rparr>"
    have "clearConsumerChannelMap example_env [''events''] ?w4 =
       Panics (CloseOfClosedChannel 4)"
      using subscribed_twice_facts(1)
      by (intro c) (simp_all add: subscribed_twice_facts(2-) events_def)
    then show ?thesis
      by (simp add: Stop_def subscribed_twice_facts(5-) invoke_def example_env_def)
  qed
  from a b c0 d subscribed_twice_facts(2,3) show ?thesis
    by simp
qed


subsection \<open>Subscribe\<close>

lemma Subscribe_existing:
  "map_get (topicToConsumerChannelMap w) (Name topic) = Some p \<Longrightarrow>
   Subscribe e topic w =
     Returns (Inr (fresh w),
       w\<lparr>entries := (entries w)(p :=
            (entries w p)\<lparr>channels := channels (entries w p) @ [fresh w]\<rparr>),
         fresh := Suc (fresh w)\<rparr>)"
  by (simp add: Subscribe_def getConsumerChannel_def addChannelToConsumerChannelMap_def Let_def)

lemma Subscribe_times_existing:
  "map_get (topicToConsumerChannelMap w) (Name topic) = Some p \<Longrightarrow>
   Subscribe_times e topic n w =
     Returns (map Inr [fresh w ..< fresh w + n],
       w\<lparr>entries := (entries w)(p :=
            (entries w p)\<lparr>channels := channels (entries w p) @ [fresh w ..< fresh w + n]\<rparr>),
         fresh := fresh w + n\<rparr>)"
proof (induction n arbitrary: w)
  case 0
  then show ?case by simp
next
  case (Suc n)
  let ?w1 = "w\<lparr>entries := (entries w)(p :=
            (entries w p)\<lparr>channels := channels (entries w p) @ [fresh w]\<rparr>),
         fresh := Suc (fresh w)\<rparr>"
  have m1: "map_get (topicToConsumerChannelMap ?w1) (Name topic) = Some p"
    using Suc.prems by simp
  have u: "[fresh w ..< fresh w + Suc n] = fresh w # [Suc (fresh w) ..< Suc (fresh w) + n]"
    by (simp add: upt_conv_Cons)
  have "Subscribe_times e topic (Suc n) w =
      and_then (Subscribe_times e topic n ?w1)
        (\<lambda>(rs, w2). Returns (Inr (fresh w) # rs, w2))"
    by (simp add: Subscribe_existing[OF Suc.prems])
  also have "\<dots> = Returns (Inr (fresh w) # map Inr [fresh ?w1 ..< fresh ?w1 + n],
       ?w1\<lparr>entries := (entries ?w1)(p :=
            (entries ?w1 p)\<lparr>channels := channels (entries ?w1 p) @ [fresh ?w1 ..< fresh ?w1 + n]\<rparr>),
         fresh := fresh ?w1 + n\<rparr>)"
    by (simp only: Suc.IH[OF m1] and_then.simps prod.case)
  finally show ?case
    unfolding u by (simp del: upt_Suc add: fun_upd_def cong: if_cong)
qed

lemma CreateTopic_frame:
  "CreateTopic e topic np rf w = Returns (r, w1) \<Longrightarrow>
   \<exists>a. cAdmin w = Some a \<and>
     w1 = w\<lparr>calls := calls w @ [Admin_CreateTopic a (Name topic) (word_of_int np)
                                  (word_of_int rf) False]\<rparr>"
  by (auto simp: CreateTopic_def invoke_def split: option.splits if_splits)

lemma ConsumePartitions_frame:
  "snd (ConsumePartitions e c topic off ps acc w) =
     w\<lparr>calls := calls (snd (ConsumePartitions e c topic off ps acc w)),
       fresh := fresh (snd (ConsumePartitions e c topic off ps acc w))\<rparr>"
proof (induction ps arbitrary: acc w)
  case Nil
  then show ?case by simp
next
  case (Cons p ps)
  show ?case
  proof (cases "fails e (calls w) (Consumer_ConsumePartition c (Name topic) p off)")
    case None
    let ?w1 = "w\<lparr>calls := calls w @ [Consumer_ConsumePartition c (Name topic) p off],
                 fresh := Suc (fresh w)\<rparr>"
    let ?acc1 = "acc @ [fresh w]"
    from None have s: "ConsumePartitions e c topic off (p # ps) acc w =
        ConsumePartitions e c topic off ps ?acc1 ?w1"
      by (simp add: invoke_def)
    from Cons.IH[of ?acc1 ?w1] show ?thesis
      unfolding s by (metis (no_types, lifting) world.surjective world.update_convs(3,4))
  next
    case (Some err)
    then show ?thesis by (simp add: invoke_def)
  qed
qed


lemma register_entry_new:
  assumes "topicToConsumerChannelMap w = Some m" and "m (Name topic) = None"
  shows "register_entry topic cs w =
     Returns (Inr (fresh w),
       w\<lparr>topicToConsumerChannelMap := Some (m(Name topic \<mapsto> Suc (fresh w))),
         entries := (entries w)(Suc (fresh w) := \<lparr>consumers = cs, channels = [fresh w]\<rparr>),
         fresh := Suc (Suc (fresh w)),
         goroutines := goroutines w @ [(Go_startConsumers topic, length (calls w))]\<rparr>)"
  using assms
  by (simp add: register_entry_def addTopicToConsumerChannelMap_def map_get_def spawn_def Let_def)

lemma register_entry_result:
  assumes "map_get (topicToConsumerChannelMap w) (Name topic) = None"
      and "register_entry topic cs w = Returns (Inr ch, w1)"
  shows "ch < fresh w1 \<and> map_get (topicToConsumerChannelMap w1) (Name topic) = Some (Suc ch) \<and>
         entries w1 (Suc ch) = \<lparr>consumers = cs, channels = [ch]\<rparr>"
proof (cases "topicToConsumerChannelMap w")
  case None
  with assms show ?thesis
    by (simp add: register_entry_def addTopicToConsumerChannelMap_def map_get_def Let_def)
next
  case (Some m)
  with assms(1) have "m (Name topic) = None" by (simp add: map_get_def)
  from register_entry_new[OF Some this, of cs] assms(2) show ?thesis
    by (auto simp: map_get_def)
qed

lemma setupPartitionConsumerChannel_result:
  assumes "map_get (topicToConsumerChannelMap w) (Name topic) = None"
      and "setupPartitionConsumerChannel e topic off w = Returns (Inr ch, w1)"
  shows "ch < fresh w1 \<and>
         (\<exists>p. map_get (topicToConsumerChannelMap w1) (Name topic) = Some p \<and>
              ch \<in> set (channels (entries w1 p)))"
proof -
  from assms(2) obtain c where c: "consumer w = Some c"
    by (cases "consumer w")
       (simp_all add: setupPartitionConsumerChannel_def createPartionConsumers_def)
  let ?w0 = "w\<lparr>calls := calls w @ [Consumer_Partitions c (Name topic)]\<rparr>"
  let ?cp = "ConsumePartitions e c topic off (partitionList e (calls w) (Name topic)) [] ?w0"
  from assms(2) c have ok: "fails e (calls w) (Consumer_Partitions c (Name topic)) = None"
    by (cases "fails e (calls w) (Consumer_Partitions c (Name topic))")
       (simp_all add: setupPartitionConsumerChannel_def createPartionConsumers_def invoke_def)
  from assms(2) c ok obtain hs where hs: "fst ?cp = Inr hs"
    and reg: "register_entry topic (map PartitionConsumer_if hs) (snd ?cp) = Returns (Inr ch, w1)"
    by (cases "fst ?cp")
       (auto simp: setupPartitionConsumerChannel_def createPartionConsumers_def invoke_def
          split: prod.splits)
  have "topicToConsumerChannelMap (snd ?cp) = topicToConsumerChannelMap w"
    by (subst ConsumePartitions_frame) simp
  with assms(1) have "map_get (topicToConsumerChannelMap (snd ?cp)) (Name topic) = None"
    by simp
  from register_entry_result[OF this reg] show ?thesis by auto
qed

lemma createGroupConsumer_eq:
  "createGroupConsumer e topic (Some g) retries w =
     (case fails e (calls w) (NewGroupConsumer (KafkaHost w) (KafkaPort w) g [Name topic]) of
        Some err \<Rightarrow>
          (Inl err,
           w\<lparr>calls := calls w @ [NewGroupConsumer (KafkaHost w) (KafkaPort w) g [Name topic]]\<rparr>)
      | None \<Rightarrow>
          (Inr (fresh w),
           w\<lparr>calls := calls w @ [NewGroupConsumer (KafkaHost w) (KafkaPort w) g [Name topic]],
             groupConsumer := Some (fresh w), fresh := Suc (fresh w)\<rparr>))"
  by (simp add: createGroupConsumer_def invoke_def split: option.splits)

lemma setupGroupConsumerChannel_result:
  assumes "map_get (topicToConsumerChannelMap w) (Name topic) = None"
      and "setupGroupConsumerChannel e topic g w = Returns (Inr ch, w1)"
  shows "ch < fresh w1 \<and>
         (\<exists>p. map_get (topicToConsumerChannelMap w1) (Name topic) = Some p \<and>
              ch \<in> set (channels (entries w1 p)))"
proof (cases "fails e (calls w) (NewGroupConsumer (KafkaHost w) (KafkaPort w) g [Name topic])")
  case (Some err)
  with assms(2) show ?thesis
    by (simp add: setupGroupConsumerChannel_def createGroupConsumer_eq)
next
  case None
  let ?w1 = "w\<lparr>calls := calls w @ [NewGroupConsumer (KafkaHost w) (KafkaPort w) g [Name topic]],
             groupConsumer := Some (fresh w), fresh := Suc (fresh w)\<rparr>"
  from None assms(2) have reg:
    "register_entry topic [GroupConsumer_if (fresh w)] ?w1 = Returns (Inr ch, w1)"
    by (simp add: setupGroupConsumerChannel_def createGroupConsumer_eq)
  from assms(1) have "map_get (topicToConsumerChannelMap ?w1) (Name topic) = None" by simp
  from register_entry_result[OF this reg] show ?thesis by auto
qed

lemma Subscribe_first:
  assumes "Subscribe e topic w = Returns (Inr ch, w1)"
  shows "ch < fresh w1 \<and>
         (\<exists>p. map_get (topicToConsumerChannelMap w1) (Name topic) = Some p \<and>
              ch \<in> set (channels (entries w1 p)))"
proof (cases "map_get (topicToConsumerChannelMap w) (Name topic)")
  case (Some p)
  from assms show ?thesis unfolding Subscribe_existing[OF Some]
    using Some by auto
next
  case None
  show ?thesis
  proof (cases "consumerType w = PartitionConsumer e")
    case True
    show ?thesis
    proof (cases "autoCreateTopic w")
      case False
      with None True assms
      have "setupPartitionConsumerChannel e topic OffsetNewest w = Returns (Inr ch, w1)"
        by (simp add: Subscribe_def getConsumerChannel_def)
      from setupPartitionConsumerChannel_result[OF None this] show ?thesis .
    next
      case auto: True
      from None True auto assms obtain r w0 where
        ct: "CreateTopic e topic (numPartitions w) (numReplicas w) w = Returns (r, w0)"
        by (cases "CreateTopic e topic (numPartitions w) (numReplicas w) w")
           (auto simp: Subscribe_def getConsumerChannel_def)
      with None True auto assms
      have s: "setupPartitionConsumerChannel e topic OffsetNewest w0 = Returns (Inr ch, w1)"
        by (cases r) (simp_all add: Subscribe_def getConsumerChannel_def)
      from CreateTopic_frame[OF ct] None
      have "map_get (topicToConsumerChannelMap w0) (Name topic) = None" by auto
      from setupPartitionConsumerChannel_result[OF this s] show ?thesis .
    qed
  next
    case False
    with None assms
    have "setupGroupConsumerChannel e topic ''mytest'' w = Returns (Inr ch, w1)"
      by (simp add: Subscribe_def getConsumerChannel_def split: if_splits)
    from setupGroupConsumerChannel_result[OF None this] show ?thesis .
  qed
qed

text \<open>
  C1. When the first \<open>Subscribe\<close> on a topic succeeds (channel \<open>ch\<close>, world \<open>w1\<close>),
  \<open>n + 1\<close> calls in a row return \<open>n + 1\<close> distinct channels; after them the map is the
  map after the first call, so it holds one entry for the topic, with the consumers the
  first call left there; the later calls call no library, start no goroutine, and only
  append their channels to the entry.
\<close>

theorem Subscribe_n_times:
  assumes "Subscribe e topic w = Returns (Inr ch, w1)"
  shows "\<exists>p chs wN.
           Subscribe_times e topic (Suc n) w = Returns (map Inr (ch # chs), wN) \<and>
           length (ch # chs) = Suc n \<and> distinct (ch # chs) \<and>
           map_get (topicToConsumerChannelMap w1) (Name topic) = Some p \<and>
           topicToConsumerChannelMap wN = topicToConsumerChannelMap w1 \<and>
           consumers (entries wN p) = consumers (entries w1 p) \<and>
           ch \<in> set (channels (entries w1 p)) \<and>
           channels (entries wN p) = channels (entries w1 p) @ chs \<and>
           calls wN = calls w1 \<and> goroutines wN = goroutines w1 \<and>
           groupConsumer wN = groupConsumer w1"
proof -
  from Subscribe_first[OF assms] obtain p where
    lt: "ch < fresh w1" and p: "map_get (topicToConsumerChannelMap w1) (Name topic) = Some p"
    and mem: "ch \<in> set (channels (entries w1 p))"
    by blast
  let ?chs = "[fresh w1 ..< fresh w1 + n]"
  let ?wN = "w1\<lparr>entries := (entries w1)(p :=
            (entries w1 p)\<lparr>channels := channels (entries w1 p) @ ?chs\<rparr>),
         fresh := fresh w1 + n\<rparr>"
  have run: "Subscribe_times e topic (Suc n) w = Returns (map Inr (ch # ?chs), ?wN)"
    using assms Subscribe_times_existing[OF p, of e n] by simp
  from lt have d: "distinct (ch # ?chs)" by simp
  show ?thesis
    apply (rule exI[of _ p], rule exI[of _ ?chs], rule exI[of _ ?wN])
    using run d p mem by simp
qed

theorem Subscribe_n_times_witness:
  "Subscribe example_env events started = Returns (Inr 4, subscribed) \<and>
   (\<exists>wN. Subscribe_times example_env events (Suc (Suc (Suc 0))) started =
            Returns ([Inr 4, Inr 6, Inr 7], wN) \<and>
      topicToConsumerChannelMap wN = topicToConsumerChannelMap subscribed \<and>
      consumers (entries wN 5) = [PartitionConsumer_if 3] \<and>
      channels (entries wN 5) = [4, 6, 7] \<and> calls wN = calls subscribed)"
proof -
  have first: "Subscribe example_env events started = Returns (Inr 4, subscribed)"
    unfolding subscribed_eq unfolding started_eq
    by (simp add: eval_defs)
  from Subscribe_n_times[OF first, of "Suc (Suc 0)"] obtain p chs wN where
    run: "Subscribe_times example_env events (Suc (Suc (Suc 0))) started =
            Returns (map Inr (4 # chs), wN)"
    and p: "map_get (topicToConsumerChannelMap subscribed) (Name events) = Some p"
    and rest: "topicToConsumerChannelMap wN = topicToConsumerChannelMap subscribed"
      "consumers (entries wN p) = consumers (entries subscribed p)"
      "channels (entries wN p) = channels (entries subscribed p) @ chs"
      "calls wN = calls subscribed"
    by blast
  from p have p5: "p = 5" by (simp add: subscribed_facts)
  have f6: "fresh subscribed = 6" by (simp add: subscribed_eq)
  have "Subscribe_times example_env events (Suc (Suc 0)) subscribed =
      Returns (map Inr [fresh subscribed ..< fresh subscribed + Suc (Suc 0)],
       subscribed\<lparr>entries := (entries subscribed)(5 :=
            (entries subscribed 5)\<lparr>channels := channels (entries subscribed 5) @
               [fresh subscribed ..< fresh subscribed + Suc (Suc 0)]\<rparr>),
         fresh := fresh subscribed + Suc (Suc 0)\<rparr>)"
    by (rule Subscribe_times_existing) (simp add: subscribed_facts)
  moreover have "[6 ..< 6 + Suc (Suc 0)] = [6, 7::nat]" by (simp add: upt_rec)
  ultimately have "\<exists>w2. Subscribe_times example_env events (Suc (Suc 0)) subscribed =
      Returns ([Inr 6, Inr 7], w2)"
    unfolding f6 by simp
  then have "\<exists>w2. Subscribe_times example_env events (Suc (Suc (Suc 0))) started =
      Returns ([Inr 4, Inr 6, Inr 7], w2)"
    using first by (auto simp del: Subscribe_times.simps simp add: Subscribe_times.simps(2)[of _ _ "Suc (Suc 0)"])
  with run have chs: "chs = [6, 7]" by auto
  from run rest p5 first show ?thesis
    unfolding chs by (auto simp: subscribed_facts)
qed


subsection \<open>The first Subscribe on a topic\<close>



lemma setupGroupConsumerChannel_eq:
  assumes "topicToConsumerChannelMap w = Some m" and "m (Name topic) = None"
  shows "setupGroupConsumerChannel e topic g w =
     (case fails e (calls w) (NewGroupConsumer (KafkaHost w) (KafkaPort w) g [Name topic]) of
        Some err \<Rightarrow>
          Returns (Inl err,
            w\<lparr>calls := calls w @ [NewGroupConsumer (KafkaHost w) (KafkaPort w) g [Name topic]]\<rparr>)
      | None \<Rightarrow>
          Returns (Inr (Suc (fresh w)),
            w\<lparr>groupConsumer := Some (fresh w),
              topicToConsumerChannelMap := Some (m(Name topic \<mapsto> Suc (Suc (fresh w)))),
              entries := (entries w)(Suc (Suc (fresh w)) :=
                 \<lparr>consumers = [GroupConsumer_if (fresh w)], channels = [Suc (fresh w)]\<rparr>),
              fresh := Suc (Suc (Suc (fresh w))),
              calls := calls w @ [NewGroupConsumer (KafkaHost w) (KafkaPort w) g [Name topic]],
              goroutines := goroutines w @ [(Go_startConsumers topic, Suc (length (calls w)))]\<rparr>))"
proof (cases "fails e (calls w) (NewGroupConsumer (KafkaHost w) (KafkaPort w) g [Name topic])")
  case (Some err)
  then show ?thesis
    by (simp add: setupGroupConsumerChannel_def createGroupConsumer_eq)
next
  case None
  let ?w1 = "w\<lparr>calls := calls w @ [NewGroupConsumer (KafkaHost w) (KafkaPort w) g [Name topic]],
             groupConsumer := Some (fresh w), fresh := Suc (fresh w)\<rparr>"
  from assms(1) have m1: "topicToConsumerChannelMap ?w1 = Some m" by simp
  from None register_entry_new[OF m1 assms(2), of "[GroupConsumer_if (fresh w)]"]
  show ?thesis
    by (simp add: setupGroupConsumerChannel_def createGroupConsumer_eq)
qed



lemma group_started_eq:
  "group_started = started\<lparr>consumerType := 1, autoCreateTopic := True\<rparr>"
  unfolding started_eq by (simp add: eval_defs)



text \<open>
  C9. Under the group strategy, the first \<open>Subscribe\<close> on a topic of a started client makes
  one library call, the creation of a group consumer with the group identifier
  \<open>mytest\<close>, whatever the \<open>groupName\<close> field of the client and the default group name
  are; when that call succeeds, the consumer it built is the one consumer of the new entry.
\<close>

theorem Subscribe_group_identifier:
  assumes "topicToConsumerChannelMap w = Some m" and "m (Name topic) = None"
      and "consumerType w = GroupCustomer e" and "GroupCustomer e \<noteq> PartitionConsumer e"
  shows "\<exists>r w'. Subscribe (e\<lparr>DefaultGroupName := d\<rparr>) topic (w\<lparr>groupName := g\<rparr>) = Returns (r, w') \<and>
           calls w' = calls w @
             [NewGroupConsumer (KafkaHost w) (KafkaPort w) ''mytest'' [Name topic]] \<and>
           (fails e (calls w)
              (NewGroupConsumer (KafkaHost w) (KafkaPort w) ''mytest'' [Name topic]) = None \<longrightarrow>
            r = Inr (Suc (fresh w)) \<and> groupConsumer w' = Some (fresh w) \<and>
            map_get (topicToConsumerChannelMap w') (Name topic) = Some (Suc (Suc (fresh w))) \<and>
            entries w' (Suc (Suc (fresh w))) =
              \<lparr>consumers = [GroupConsumer_if (fresh w)], channels = [Suc (fresh w)]\<rparr>)"
proof -
  let ?e = "e\<lparr>DefaultGroupName := d\<rparr>" and ?w = "w\<lparr>groupName := g\<rparr>"
  have m: "topicToConsumerChannelMap ?w = Some m" using assms(1) by simp
  from assms have "Subscribe ?e topic ?w = setupGroupConsumerChannel ?e topic ''mytest'' ?w"
    by (simp add: Subscribe_def getConsumerChannel_def map_get_def)
  then show ?thesis
    unfolding setupGroupConsumerChannel_eq[OF m assms(2)]
    by (cases "fails e (calls w)
                 (NewGroupConsumer (KafkaHost w) (KafkaPort w) ''mytest'' [Name topic])")
       (simp_all add: map_get_def)
qed

theorem Subscribe_group_identifier_witness:
  "\<exists>w'. Subscribe (example_env\<lparr>DefaultGroupName := ''voltha''\<rparr>) events
          (group_started\<lparr>groupName := ''core''\<rparr>) = Returns (Inr 4, w') \<and>
      calls w' = calls group_started @
        [NewGroupConsumer ''127.0.0.1'' 9092 ''mytest'' [''events'']] \<and>
      groupConsumer w' = Some 3 \<and>
      entries w' 5 = \<lparr>consumers = [GroupConsumer_if 3], channels = [4]\<rparr>"
proof -
  have h: "topicToConsumerChannelMap group_started = Some Map.empty"
    "consumerType group_started = GroupCustomer example_env"
    "GroupCustomer example_env \<noteq> PartitionConsumer example_env"
    by (simp_all add: group_started_eq started_eq example_env_def)
  have v: "KafkaHost group_started = ''127.0.0.1''" "KafkaPort group_started = 9092"
    "fresh group_started = 3"
    "fails example_env (calls group_started)
       (NewGroupConsumer ''127.0.0.1'' 9092 ''mytest'' [''events'']) = None"
    by (simp_all add: group_started_eq started_eq example_env_def)
  have "Map.empty (Name events) = (None :: ptr option)" by simp
  from Subscribe_group_identifier[where w = group_started and topic = events
      and m = Map.empty and e = example_env and d = "''voltha''" and g = "''core''",
      OF h(1) this h(2,3)] v
  show ?thesis
    by (auto simp: events_def numeral_eq_Suc)
qed


subsection \<open>Send\<close>

text \<open>
  C6. A message that is not a \<open>proto.Message\<close> makes \<open>Send\<close> return the
  not-a-proto-msg error and leaves the world, and so the producer's input, as it was. A
  proto message that encodes is put on the producer's input as one record with the name of
  the topic, the encoded bytes and, as key, the first of the keys, or the empty string
  when there is none.
\<close>

theorem Send_payload_and_key:
  "Send e (OtherValue s) topic keys w =
     Returns (Some (ErrorNew (''not-a-proto-msg-'' @ s)), w) \<and>
   (\<forall>marshalled p. Marshal e protoMsg = Inr marshalled \<and> producer w = Some p \<longrightarrow>
      Send e (ProtoValue protoMsg) topic keys w =
        Returns (None,
          w\<lparr>calls := calls w @
               [Producer_Input p
                  \<lparr>msg_Topic = Name topic,
                   msg_Key = (case keys of [] \<Rightarrow> [] | k # ks \<Rightarrow> k),
                   msg_Value = marshalled\<rparr>]\<rparr>))"
  by (cases keys) (simp_all add: Send_def Let_def)

theorem Send_payload_and_key_witness:
  "Send example_env (OtherValue ''42'') events [''k1''] started =
     Returns (Some (ErrorNew ''not-a-proto-msg-42''), started) \<and>
   Send example_env (ProtoValue (ProtoMsg [1])) events [''k1'', ''k2''] started =
     Returns (None,
       started\<lparr>calls := calls started @
          [Producer_Input 1 \<lparr>msg_Topic = ''events'', msg_Key = ''k1'', msg_Value = []\<rparr>]\<rparr>) \<and>
   Send example_env (ProtoValue (ProtoMsg [1])) events [] started =
     Returns (None,
       started\<lparr>calls := calls started @
          [Producer_Input 1 \<lparr>msg_Topic = ''events'', msg_Key = [], msg_Value = []\<rparr>]\<rparr>)"
proof -
  have h: "Marshal example_env (ProtoMsg [1]) = Inr [] \<and> producer started = Some 1"
    by (simp add: example_env_def started_eq)
  from Send_payload_and_key[of example_env "''42''" events "[''k1'']" started "ProtoMsg [1]"]
    Send_payload_and_key[of example_env "''42''" events "[''k1'', ''k2'']" started "ProtoMsg [1]",
      THEN conjunct2, rule_format, OF h]
    Send_payload_and_key[of example_env "''42''" events "[]" started "ProtoMsg [1]",
      THEN conjunct2, rule_format, OF h]
  show ?thesis by (simp add: events_def)
qed

subsection \<open>The group consumption loop\<close>

text \<open>
  A \<open>go\<close> statement followed by a library call is not the library call followed by the
  \<open>go\<close> statement: the goroutine is recorded with the number of calls made before it.
\<close>

lemma go_then_call_is_ordered:
  "spawn t (w\<lparr>calls := calls w @ [c]\<rparr>) \<noteq> (spawn t w)\<lparr>calls := calls w @ [c]\<rparr>"
proof
  assume "spawn t (w\<lparr>calls := calls w @ [c]\<rparr>) = (spawn t w)\<lparr>calls := calls w @ [c]\<rparr>"
  then have "goroutines (spawn t (w\<lparr>calls := calls w @ [c]\<rparr>)) =
             goroutines ((spawn t w)\<lparr>calls := calls w @ [c]\<rparr>)"
    by simp
  then show False by (simp add: spawn_def)
qed

lemma dispatchToConsumers_sends:
  "dispatchToConsumers p icm w =
     w\<lparr>goroutines := goroutines w @
          map (\<lambda>ch. (Go_send ch icm, length (calls w))) (channels (entries w p))\<rparr>"
proof -
  have "fold (\<lambda>c. spawn (Go_send c icm)) cs w =
          w\<lparr>goroutines := goroutines w @ map (\<lambda>ch. (Go_send ch icm, length (calls w))) cs\<rparr>"
    for cs w
    by (induction cs arbitrary: w) (simp_all add: spawn_def)
  then show ?thesis by (simp add: dispatchToConsumers_def)
qed

text \<open>
  C7. On a message that is not nil, one pass of the group loop. If the message decodes:
  the dispatch of the decoded message to the entry of the loop is started as a goroutine,
  after the library calls made so far and before any other; the next library call is the
  mark of the offset of that message on the group consumer; the loop goes on (it is still
  running after the pass); and the dispatch, when it runs, sends the message to every
  channel of the entry. If the message does not decode: nothing changes (no dispatch, no
  mark) and the loop goes on, so that a message that follows and decodes is dispatched and
  marked.
\<close>

theorem consumeGroupMessages_on_message:
  "(\<forall>icm. Unmarshal e (cm_Value msg) = Inr icm \<longrightarrow>
      consumeGroupMessages_select e topic c p (Messages_case (Some msg)) w =
        Returns (Continue,
          w\<lparr>goroutines := goroutines w @ [(Go_dispatchToConsumers p icm, length (calls w))],
            calls := calls w @ [GroupConsumer_MarkOffset c msg []]\<rparr>) \<and>
      started_just_before (Go_dispatchToConsumers p icm) (GroupConsumer_MarkOffset c msg [])
        (w\<lparr>goroutines := goroutines w @ [(Go_dispatchToConsumers p icm, length (calls w))],
           calls := calls w @ [GroupConsumer_MarkOffset c msg []]\<rparr>) \<and>
      consumeGroupMessages e topic c p [Messages_case (Some msg)] w =
        Returns (Continue,
          w\<lparr>goroutines := goroutines w @ [(Go_dispatchToConsumers p icm, length (calls w))],
            calls := calls w @ [GroupConsumer_MarkOffset c msg []]\<rparr>) \<and>
      consumeGroupMessages e topic c p (Messages_case (Some msg) # evs) w =
        consumeGroupMessages e topic c p evs
          (w\<lparr>goroutines := goroutines w @ [(Go_dispatchToConsumers p icm, length (calls w))],
            calls := calls w @ [GroupConsumer_MarkOffset c msg []]\<rparr>) \<and>
      dispatchToConsumers p icm w =
        w\<lparr>goroutines := goroutines w @
             map (\<lambda>ch. (Go_send ch icm, length (calls w))) (channels (entries w p))\<rparr>) \<and>
   (\<forall>err. Unmarshal e (cm_Value msg) = Inl err \<longrightarrow>
      consumeGroupMessages_select e topic c p (Messages_case (Some msg)) w =
        Returns (Continue, w) \<and>
      consumeGroupMessages e topic c p (Messages_case (Some msg) # evs) w =
        consumeGroupMessages e topic c p evs w \<and>
      (\<forall>msg2 icm2. Unmarshal e (cm_Value msg2) = Inr icm2 \<longrightarrow>
         consumeGroupMessages e topic c p [Messages_case (Some msg), Messages_case (Some msg2)] w =
           Returns (Continue,
             w\<lparr>goroutines := goroutines w @ [(Go_dispatchToConsumers p icm2, length (calls w))],
               calls := calls w @ [GroupConsumer_MarkOffset c msg2 []]\<rparr>)))"
  by (simp add: spawn_def Let_def dispatchToConsumers_sends started_just_before_def)

lemma group_subscribed_eq:
  "group_subscribed =
     group_started\<lparr>groupConsumer := Some 3,
       topicToConsumerChannelMap := Some [''events'' \<mapsto> 5],
       entries := (\<lambda>p. \<lparr>consumers = [], channels = []\<rparr>)
                    (5 := \<lparr>consumers = [GroupConsumer_if 3], channels = [4]\<rparr>),
       fresh := 6,
       calls := calls started @ [NewGroupConsumer ''127.0.0.1'' 9092 ''mytest'' [''events'']],
       goroutines := [(Go_startConsumers events, 4)]\<rparr>"
  unfolding group_subscribed_def group_started_eq started_eq
  by (simp add: eval_defs)

theorem consumeGroupMessages_on_message_witness:
  "consumeGroupMessages_select example_env events 3 5
     (Messages_case (Some \<lparr>cm_Offset = 7, cm_Value = [1, 2]\<rparr>)) group_subscribed =
     Returns (Continue,
       group_subscribed\<lparr>goroutines := [(Go_startConsumers events, 4),
                                        (Go_dispatchToConsumers 5 (ProtoMsg []), 4)],
         calls := calls group_subscribed @
           [GroupConsumer_MarkOffset 3 \<lparr>cm_Offset = 7, cm_Value = [1, 2]\<rparr> []]\<rparr>) \<and>
   length (calls group_subscribed) = 4 \<and>
   dispatchToConsumers 5 (ProtoMsg []) group_subscribed =
     group_subscribed\<lparr>goroutines := [(Go_startConsumers events, 4),
                                      (Go_send 4 (ProtoMsg []), 4)]\<rparr> \<and>
   consumeGroupMessages garbled_env events 3 5
     [Messages_case (Some \<lparr>cm_Offset = 7, cm_Value = [1, 2]\<rparr>)] group_subscribed =
     Returns (Continue, group_subscribed) \<and>
   consumeGroupMessages bad_then_good_env events 3 5
     [Messages_case (Some \<lparr>cm_Offset = 7, cm_Value = []\<rparr>),
      Messages_case (Some \<lparr>cm_Offset = 8, cm_Value = [1, 2]\<rparr>)] group_subscribed =
     Returns (Continue,
       group_subscribed\<lparr>goroutines := [(Go_startConsumers events, 4),
                                        (Go_dispatchToConsumers 5 (ProtoMsg [1, 2]), 4)],
         calls := calls group_subscribed @
           [GroupConsumer_MarkOffset 3 \<lparr>cm_Offset = 8, cm_Value = [1, 2]\<rparr> []]\<rparr>)"
proof -
  let ?m = "\<lparr>cm_Offset = 7, cm_Value = [1, 2]\<rparr>"
  let ?bad = "\<lparr>cm_Offset = 7, cm_Value = []\<rparr>"
  let ?good = "\<lparr>cm_Offset = 8, cm_Value = [1, 2]\<rparr>"
  have a: "Unmarshal example_env (cm_Value ?m) = Inr (ProtoMsg [])"
    by (simp add: example_env_def)
  have b: "Unmarshal garbled_env (cm_Value ?m) = Inl (ErrorNew ''proto: bad wire type'')"
    by (simp add: garbled_env_def example_env_def)
  have c: "Unmarshal bad_then_good_env (cm_Value ?bad) = Inl (ErrorNew ''proto: empty'')"
    "Unmarshal bad_then_good_env (cm_Value ?good) = Inr (ProtoMsg [1, 2])"
    by (simp_all add: bad_then_good_env_def example_env_def)
  have g: "goroutines group_subscribed = [(Go_startConsumers events, 4)]"
    "channels (entries group_subscribed 5) = [4]"
    "length (calls group_subscribed) = 4"
    by (simp_all add: group_subscribed_eq group_started_eq started_eq)
  from consumeGroupMessages_on_message[of example_env ?m events 3 5 group_subscribed "[]",
      THEN conjunct1, rule_format, OF a]
    consumeGroupMessages_on_message[of garbled_env ?m events 3 5 group_subscribed "[]",
      THEN conjunct2, rule_format, OF b]
    consumeGroupMessages_on_message[of bad_then_good_env ?bad events 3 5 group_subscribed "[]",
      THEN conjunct2, rule_format, OF c(1), THEN conjunct2, THEN conjunct2, rule_format, OF c(2)]
  show ?thesis by (simp add: g)
qed

subsection \<open>Topics that exist already, topics that are unknown\<close>

text \<open>
  C8. When the broker answers \<open>CreateTopic\<close> with topic-already-exists, \<open>CreateTopic\<close>
  returns nil; when it answers \<open>DeleteTopic\<close> with unknown-topic-or-partition,
  \<open>DeleteTopic\<close> returns nil. In both cases only the log of library calls changes.
\<close>

theorem CreateTopic_DeleteTopic_absorb:
  assumes "cAdmin w = Some a"
  shows "(fails e (calls w)
            (Admin_CreateTopic a (Name topic) (word_of_int numPartition) (word_of_int repFactor)
               False) = Some ErrTopicAlreadyExists \<longrightarrow>
          CreateTopic e topic numPartition repFactor w =
            Returns (None,
              w\<lparr>calls := calls w @
                   [Admin_CreateTopic a (Name topic) (word_of_int numPartition)
                      (word_of_int repFactor) False]\<rparr>)) \<and>
         (fails e (calls w) (Admin_DeleteTopic a (Name topic)) =
            Some ErrUnknownTopicOrPartition \<longrightarrow>
          DeleteTopic e topic w =
            Returns (None, w\<lparr>calls := calls w @ [Admin_DeleteTopic a (Name topic)]\<rparr>))"
  using assms by (simp add: CreateTopic_def DeleteTopic_def invoke_def)

theorem CreateTopic_DeleteTopic_absorb_witness:
  "CreateTopic topic_known_env events 3 1 started =
     Returns (None,
       started\<lparr>calls := calls started @ [Admin_CreateTopic 0 ''events'' 3 1 False]\<rparr>) \<and>
   DeleteTopic topic_known_env events subscribed =
     Returns (None,
       subscribed\<lparr>calls := calls subscribed @ [Admin_DeleteTopic 0 ''events'']\<rparr>)"
proof -
  have a: "cAdmin started = Some 0" "cAdmin subscribed = Some 0"
    by (simp_all add: subscribed_eq started_eq)
  have f: "fails topic_known_env (calls started)
            (Admin_CreateTopic 0 (Name events) (word_of_int 3) (word_of_int 1) False) =
              Some ErrTopicAlreadyExists"
    "fails topic_known_env (calls subscribed) (Admin_DeleteTopic 0 (Name events)) =
            Some ErrUnknownTopicOrPartition"
    by (simp_all add: topic_known_env_def example_env_def)
  from CreateTopic_DeleteTopic_absorb[OF a(1), of topic_known_env events 3 1,
      THEN conjunct1, rule_format, OF f(1)]
    CreateTopic_DeleteTopic_absorb[OF a(2), of topic_known_env events 3 1,
      THEN conjunct2, rule_format, OF f(2)]
  show ?thesis by (simp add: events_def)
qed


subsection \<open>Stop\<close>

















text \<open>
  Under the group strategy one \<open>Stop\<close> already calls \<open>Close\<close> twice on the group consumer:
  once through the \<open>groupConsumer\<close> field and once through the registry entry that holds
  the same consumer.
\<close>

lemma Stop_closes_group_consumer_twice:
  "\<exists>w1. Stop example_env [''events''] group_subscribed = Returns w1 \<and>
      calls w1 = calls group_subscribed @
        [Producer_Close 1, Consumer_Close 2, GroupConsumer_Close 3, Admin_Close 0,
         GroupConsumer_Close 3]"
proof -
  have f: "topicToConsumerChannelMap group_subscribed = Some [''events'' \<mapsto> 5]"
    "doneCh group_subscribed = Some []" "closed_chans group_subscribed = []"
    "entries group_subscribed 5 = \<lparr>consumers = [GroupConsumer_if 3], channels = [4]\<rparr>"
    "producer group_subscribed = Some 1" "consumer group_subscribed = Some 2"
    "groupConsumer group_subscribed = Some 3" "cAdmin group_subscribed = Some 0"
    by (simp_all add: group_subscribed_eq group_started_eq started_eq)
  show ?thesis
    by (simp add: Stop_def f invoke_def example_env_def clearConsumerChannelMap_def map_get_def
        map_delete_def removeChannel_def removeChannel_from.simps close_chan_def
        set_channels_def closeConsumers_def Let_def)
qed


end
